(* ===== verification/WC_Prelude.thy ===== *)
theory WC_Prelude
  imports Main "HOL-Library.Word"
begin

text \<open>
  Shared vocabulary of the word-count development. A Rust \<open>&str\<close> or \<open>String\<close> is its
  UTF-8 byte sequence (\<open>rstr\<close>, a list of \<open>8 word\<close>); a Rust \<open>char\<close> is the
  32-bit scalar value it stores (\<open>char32\<close>). Rust string literals of the source are written
  as Isabelle string literals converted byte by byte (\<open>lit\<close>). The prelude also collects
  the bit-level facts about the numeric constants of the UTF-8 codec (\<open>utf8_bits\<close>) and
  the generic list lemmas the counters share.
\<close>

unbundle bit_operations_syntax

type_synonym byte = "8 word"
type_synonym char32 = "32 word"
type_synonym rstr = "byte list"

named_theorems utf8_bits "bit patterns of the masks and tags of the UTF-8 codec"

definition lit :: "string \<Rightarrow> rstr" where
  "lit s = map (\<lambda>c. word_of_nat (of_char c)) s"

subsection \<open>String literals\<close>

lemma lit_Nil [simp]: "lit [] = []"
  and lit_Cons [simp]: "lit (c # s) = word_of_nat (of_char c) # lit s"
  and lit_append [simp]: "lit (s @ t) = lit s @ lit t"
  by (simp_all add: lit_def)

lemma length_lit [simp]: "length (lit s) = length s"
  by (simp add: lit_def)

lemma byte_of_char_inj:
  "(word_of_nat (of_char a) :: byte) = word_of_nat (of_char b) \<longleftrightarrow> a = b"
proof
  assume eq: "(word_of_nat (of_char a) :: byte) = word_of_nat (of_char b)"
  have "of_char a < (2::nat) ^ LENGTH(8)" and "of_char b < (2::nat) ^ LENGTH(8)"
    using nat_of_char_less_256 by simp_all
  with eq have "(of_char a :: nat) = of_char b"
    by (simp add: word_of_nat_eq_iff take_bit_nat_eq_self)
  then show "a = b" by simp
qed simp

lemma inj_lit: "inj lit"
proof (rule injI)
  fix s t assume "lit s = lit t"
  then have "map (\<lambda>c. word_of_nat (of_char c) :: byte) s = map (\<lambda>c. word_of_nat (of_char c)) t"
    by (simp add: lit_def)
  moreover have "inj (\<lambda>c. word_of_nat (of_char c) :: byte)"
    by (rule injI) (simp add: byte_of_char_inj)
  ultimately show "s = t" by simp
qed

subsection \<open>Bits of words\<close>

lemma bit_below: "unat (c::'a::len word) < 2 ^ n \<Longrightarrow> bit c m \<Longrightarrow> m < n"
proof (rule ccontr)
  assume "unat c < 2 ^ n" "bit c m" "\<not> m < n"
  then have "bit (unat c) m" by (simp add: bit_unsigned_iff)
  then have "2 ^ m \<le> unat c"
    by (metis bit_iff_odd div_less even_zero not_le)
  moreover have "(2::nat) ^ n \<le> 2 ^ m" using \<open>\<not> m < n\<close> by simp
  ultimately show False using \<open>unat c < 2 ^ n\<close> by linarith
qed

lemma int_codec_consts:
  "(0x1F :: int) = mask 5" "(0x3F :: int) = mask 6" "(0x0F :: int) = mask 4"
  "(0x07 :: int) = mask 3" "(0x7F :: int) = mask 7"
  "(0x80 :: int) = push_bit 7 (mask 1)" "(0xC0 :: int) = push_bit 6 (mask 2)"
  "(0xE0 :: int) = push_bit 5 (mask 3)" "(0xF0 :: int) = push_bit 4 (mask 4)"
  by (simp_all add: mask_eq_exp_minus_1 push_bit_eq_mult)

lemma codec_const_bits [utf8_bits]:
  "bit (0x1F :: int) n \<longleftrightarrow> n < 5" "bit (0x3F :: int) n \<longleftrightarrow> n < 6"
  "bit (0x0F :: int) n \<longleftrightarrow> n < 4" "bit (0x07 :: int) n \<longleftrightarrow> n < 3"
  "bit (0x7F :: int) n \<longleftrightarrow> n < 7"
  "bit (0x80 :: int) n \<longleftrightarrow> n = 7" "bit (0xC0 :: int) n \<longleftrightarrow> 6 \<le> n \<and> n < 8"
  "bit (0xE0 :: int) n \<longleftrightarrow> 5 \<le> n \<and> n < 8" "bit (0xF0 :: int) n \<longleftrightarrow> 4 \<le> n \<and> n < 8"
  by (simp_all only: int_codec_consts bit_mask_iff bit_push_bit_iff possible_bit_def) auto

lemma sint_byte: "sint (b::byte) = (if unat b < 128 then int (unat b) else int (unat b) - 256)"
proof -
  have lt: "uint b < 256" using unsigned_less[of b] by simp
  have nn: "0 \<le> uint b" by simp
  have b7: "bit (uint b) 7 \<longleftrightarrow> 128 \<le> uint b"
  proof -
    have "uint b div 128 = (if 128 \<le> uint b then 1 else 0)"
      using lt nn by presburger
    then show ?thesis by (simp add: bit_iff_odd)
  qed
  have tb: "take_bit 8 (uint b) = uint b"
    using lt nn by (simp add: take_bit_int_eq_self_iff)
  have "sint b = uint b - 256 * of_bool (bit (uint b) 7)"
    by (simp only: sint_uint signed_take_bit_eq_take_bit_minus) (simp add: tb)
  then have e: "sint b = uint b - 256 * of_bool (128 \<le> uint b)"
    by (simp only: b7)
  have c: "(128 \<le> uint b) = (128 \<le> unat b)"
    by (simp add: uint_nat del: of_nat_unat)
  show ?thesis using e by (auto simp: c)
qed

lemma word_codec_consts:
  "(0x1F :: 'a::len word) = mask 5" "(0x3F :: 'a::len word) = mask 6" "(0x0F :: 'a::len word) = mask 4"
  "(0x07 :: 'a::len word) = mask 3"
  by (simp_all add: mask_eq_exp_minus_1)

lemma unat_tag_field:
  fixes c :: "'a::len word" and t :: byte
  assumes "m \<le> 8" and "unat t mod 2 ^ m = 0"
  shows "unat (ucast (drop_bit k c AND mask m) OR t) = unat t + unat c div 2 ^ k mod 2 ^ m"
proof -
  have f: "unat (ucast (drop_bit k c AND mask m) :: byte) = unat c div 2 ^ k mod 2 ^ m"
  proof -
    have "take_bit LENGTH('a) (unat c) = unat c"
      using unsigned_less[of c] by (simp add: take_bit_nat_eq_self_iff)
    then have "unat (ucast (drop_bit k c AND mask m) :: byte) = take_bit m (drop_bit k (unat c))"
      using assms(1)
      by (simp only: unsigned_ucast_eq unsigned_take_bit_eq unsigned_drop_bit_eq take_bit_take_bit
          flip: take_bit_eq_mask) (simp add: min_def)
    then show ?thesis by (simp add: take_bit_eq_mod drop_bit_eq_div)
  qed
  have low: "\<not> bit (unat t) n" if "n < m" for n
  proof -
    have "take_bit m (unat t) = 0" using assms(2) by (simp add: take_bit_eq_mod)
    then have "\<not> bit (take_bit m (unat t)) n" by simp
    with that show ?thesis by (simp add: bit_take_bit_iff)
  qed
  have "unat (ucast (drop_bit k c AND mask m) OR t) = unat (ucast (drop_bit k c AND mask m) :: byte) OR unat t"
    by (simp add: unsigned_or_eq)
  also have "\<dots> = unat (ucast (drop_bit k c AND mask m) :: byte) + unat t"
  proof (rule disjunctive_add [symmetric])
    fix n
    show "\<not> bit (unat (ucast (drop_bit k c AND mask m) :: byte)) n \<or> \<not> bit (unat t) n"
      using low[of n] by (auto simp: bit_simps)
  qed
  finally show ?thesis using f by simp
qed

lemma unat_tag_low:
  fixes c :: "'a::len word" and t :: byte
  assumes "m \<le> 8" and "unat t mod 2 ^ m = 0"
  shows "unat (ucast (c AND mask m) OR t) = unat t + unat c mod 2 ^ m"
  using unat_tag_field[OF assms, where k = 0 and c = c] by simp

subsection \<open>Bytes as numbers\<close>

text \<open>
  The UTF-8 proofs read every byte as its value \<open>unat\<close> and every code point as its
  base-64 digits: comparisons of bytes become comparisons of naturals
  (\<open>byte_unat_conv\<close>), and a code point is rebuilt from its digits
  (\<open>base64_digits\<close>, \<open>base64_split\<close>).
\<close>

lemmas byte_unat_conv = word_less_nat_alt word_le_nat_alt word_unat_eq_iff sint_byte

lemma base64_digits:
  "n = 64 * (n div 64) + n mod 64"
  "n div 64 = 64 * (n div 4096) + n div 64 mod 64"
  "n div 4096 = 64 * (n div 262144) + n div 4096 mod 64"
  "n mod 64 < 64" "n div 64 mod 64 < 64" "n div 4096 mod 64 < 64"
  for n :: nat
proof -
  have "n div 64 div 64 = n div 4096" "n div 4096 div 64 = n div 262144"
    using div_mult2_eq[of n 64 64] div_mult2_eq[of n 4096 64] by simp_all
  then show "n div 64 = 64 * (n div 4096) + n div 64 mod 64"
    and "n div 4096 = 64 * (n div 262144) + n div 4096 mod 64"
    by (metis div_mult_mod_eq mult.commute)+
qed simp_all

lemma base64_split: "x < 64 \<Longrightarrow> (x + 64 * w) div 64 = w \<and> (x + 64 * w) mod 64 = x"
  for x w :: nat
  by simp

lemma div_by_powers_of_64:
  "n div 4096 = n div 64 div 64" "n div 262144 = n div 64 div 64 div 64" for n :: nat
  by (simp_all add: div_mult2_eq[symmetric])

lemma map_unat_eq_iff: "map unat xs = map unat (ys :: 'a::len word list) \<longleftrightarrow> xs = ys"
proof -
  have "inj (unat :: 'a word \<Rightarrow> nat)" by (rule injI) (simp add: word_unat_eq_iff)
  then show ?thesis by (simp add: inj_map_eq_map)
qed

end
