(* ===== verification/Utf8.thy ===== *)
theory Utf8
  imports WC_Prelude
begin

text \<open>
  The UTF-8 representation of Rust strings, as the standard library the counters call
  implements it: \<open>char::encode_utf8\<close> (core \<open>encode_utf8_raw\<close>), the decoder behind
  \<open>str::chars\<close> (core \<open>next_code_point\<close>), the continuation-byte count that
  \<open>Chars::count\<close> is specialised to. A \<open>&str\<close> of the program is \<open>encode_str cs\<close>
  for a list \<open>cs\<close> of scalar values (theory \<open>Utf8_Valid\<close> shows that these are exactly
  the byte strings \<open>read_to_string\<close> accepts); the lemmas show that decoding inverts
  encoding, that the decoder consumes one to four bytes per step (the measure of the
  termination of \<open>chars\<close>), and that the byte count of \<open>Chars::count\<close> is the number
  of scalars.
\<close>

subsection \<open>Scalar values and the encoder\<close>

text \<open>
  The tags of the source are written as numerals: \<open>TAG_CONT = 0x80\<close>,
  \<open>TAG_TWO_B = 0xC0\<close>, \<open>TAG_THREE_B = 0xE0\<close>, \<open>TAG_FOUR_B = 0xF0\<close>,
  \<open>CONT_MASK = 0x3F\<close>.
\<close>

definition is_scalar :: "char32 \<Rightarrow> bool" where
  "is_scalar c \<longleftrightarrow> c < 0x110000 \<and> \<not> (0xD800 \<le> c \<and> c \<le> 0xDFFF)"

definition len_utf8 :: "char32 \<Rightarrow> nat" where
  "len_utf8 code =
     (if code < 0x80 then 1 else if code < 0x800 then 2 else if code < 0x10000 then 3 else 4)"

definition encode_utf8_raw :: "char32 \<Rightarrow> byte list" where
  "encode_utf8_raw code =
     (let len = len_utf8 code in
      if len = 1 then [ucast code]
      else if len = 2 then
        [ucast (drop_bit 6 code AND 0x1F) OR 0xC0,
         ucast (code AND 0x3F) OR 0x80]
      else if len = 3 then
        [ucast (drop_bit 12 code AND 0x0F) OR 0xE0,
         ucast (drop_bit 6 code AND 0x3F) OR 0x80,
         ucast (code AND 0x3F) OR 0x80]
      else
        [ucast (drop_bit 18 code AND 0x07) OR 0xF0,
         ucast (drop_bit 12 code AND 0x3F) OR 0x80,
         ucast (drop_bit 6 code AND 0x3F) OR 0x80,
         ucast (code AND 0x3F) OR 0x80])"

definition encode_str :: "char32 list \<Rightarrow> rstr" where
  "encode_str cs = concat (map encode_utf8_raw cs)"

subsection \<open>The decoder\<close>

definition utf8_first_byte :: "byte \<Rightarrow> nat \<Rightarrow> char32" where
  "utf8_first_byte byte width = ucast (byte AND drop_bit width 0x7F)"

definition utf8_acc_cont_byte :: "char32 \<Rightarrow> byte \<Rightarrow> char32" where
  "utf8_acc_cont_byte ch byte = push_bit 6 ch OR ucast (byte AND 0x3F)"

text \<open>
  \<open>next_code_point\<close> reads the continuation bytes with \<open>unwrap_unchecked\<close>: on a
  truncated sequence the source has undefined behaviour, which a valid \<open>str\<close> never
  reaches. The model answers \<open>None\<close> there.
\<close>

fun next_code_point :: "rstr \<Rightarrow> (char32 \<times> rstr) option" where
  "next_code_point [] = None"
| "next_code_point (x # bs) =
     (if x < 128 then Some (ucast x, bs)
      else (case bs of [] \<Rightarrow> None | y # bs1 \<Rightarrow>
        let init = utf8_first_byte x 2;
            ch = utf8_acc_cont_byte init y
        in if 0xE0 \<le> x then
             (case bs1 of [] \<Rightarrow> None | z # bs2 \<Rightarrow>
                let y_z = utf8_acc_cont_byte (ucast (y AND 0x3F)) z;
                    ch = push_bit 12 init OR y_z
                in if 0xF0 \<le> x then
                     (case bs2 of [] \<Rightarrow> None | w # bs3 \<Rightarrow>
                        Some (push_bit 18 (init AND 7) OR utf8_acc_cont_byte y_z w, bs3))
                   else Some (ch, bs2))
           else Some (ch, bs1)))"

function chars :: "rstr \<Rightarrow> char32 list" where
  "chars bs = (case next_code_point bs of None \<Rightarrow> [] | Some (c, rest) \<Rightarrow> c # chars rest)"
  by pat_completeness auto
termination
  by (relation "measure length")
     (auto elim!: next_code_point.elims simp: Let_def split: if_splits list.splits)

subsection \<open>Counting scalars by their leading bytes\<close>

definition utf8_is_cont_byte :: "byte \<Rightarrow> bool" where
  "utf8_is_cont_byte byte \<longleftrightarrow> sint byte < -64"

definition count_chars :: "rstr \<Rightarrow> nat" where
  "count_chars s = length (filter (\<lambda>byte. \<not> utf8_is_cont_byte byte) s)"

declare chars.simps [simp del]

subsection \<open>The encoder, byte by byte\<close>

lemma unat_encode_utf8_raw:
  "map unat (encode_utf8_raw c) =
    (if c < 0x80 then [unat c]
     else if c < 0x800 then [0xC0 + unat c div 64 mod 32, 0x80 + unat c mod 64]
     else if c < 0x10000 then
       [0xE0 + unat c div 4096 mod 16, 0x80 + unat c div 64 mod 64, 0x80 + unat c mod 64]
     else [0xF0 + unat c div 262144 mod 8, 0x80 + unat c div 4096 mod 64,
           0x80 + unat c div 64 mod 64, 0x80 + unat c mod 64])"
proof -
  have one: "c < 0x80 \<Longrightarrow> unat (ucast c :: byte) = unat c"
    by (simp add: unsigned_ucast_eq take_bit_nat_eq_self_iff word_less_nat_alt)
  note f = unat_tag_field unat_tag_low
  show ?thesis
    by (simp add: encode_utf8_raw_def len_utf8_def Let_def one f word_codec_consts unat_drop_bit_eq drop_bit_eq_div unat_div_distrib)
qed

lemma utf8_is_cont_byte_unat: "utf8_is_cont_byte b \<longleftrightarrow> 128 \<le> unat b \<and> unat b < 192"
  by (auto simp: utf8_is_cont_byte_def sint_byte uint_nat simp del: of_nat_unat)

lemma cont_acc: "utf8_acc_cont_byte ch (ucast (x AND 0x3F) OR 0x80) = push_bit 6 ch OR (x AND 0x3F)"
  unfolding utf8_acc_cont_byte_def
  by (rule bit_word_eqI) (auto simp: bit_simps utf8_bits)

lemma cont_payload: "(ucast ((ucast (x AND 0x3F) OR 0x80 :: byte) AND 0x3F) :: char32) = x AND 0x3F"
  by (rule bit_word_eqI) (auto simp: bit_simps utf8_bits)

lemma lead_payload:
  "utf8_first_byte (ucast (x AND 0x1F) OR 0xC0) 2 = x AND 0x1F"
  "utf8_first_byte (ucast (x AND 0x0F) OR 0xE0) 2 = x AND 0x0F"
  "utf8_first_byte (ucast (x AND 0x07) OR 0xF0) 2 AND 7 = x AND 0x07"
  unfolding utf8_first_byte_def
  by (rule bit_word_eqI; auto simp: bit_simps utf8_bits)+

lemma decode_one: "c < 0x80 \<Longrightarrow> (ucast (ucast c :: byte) :: char32) = c"
proof -
  assume "c < 0x80"
  then have h: "unat c < 2 ^ 7" by (simp add: word_less_nat_alt)
  show ?thesis by (rule bit_word_eqI) (auto simp: bit_simps dest: bit_below[OF h])
qed

lemma decode_two:
  assumes "(c::char32) < 0x800"
  shows "push_bit 6 (drop_bit 6 c AND 0x1F) OR (c AND 0x3F) = c"
proof -
  have h: "unat c < 2 ^ 11" using assms by (simp add: word_less_nat_alt)
  show ?thesis unfolding word_codec_consts
    by (rule bit_word_eqI) (auto simp: bit_simps dest: bit_below[OF h] split: nat_diff_split_asm)
qed

lemma decode_three:
  assumes "(c::char32) < 0x10000"
  shows "push_bit 12 (drop_bit 12 c AND 0x0F) OR (push_bit 6 (drop_bit 6 c AND 0x3F) OR (c AND 0x3F)) = c"
proof -
  have h: "unat c < 2 ^ 16" using assms by (simp add: word_less_nat_alt)
  show ?thesis unfolding word_codec_consts
    by (rule bit_word_eqI) (auto simp: bit_simps dest: bit_below[OF h] split: nat_diff_split_asm)
qed

lemma decode_four:
  assumes "(c::char32) < 0x110000"
  shows "push_bit 18 (drop_bit 18 c AND 0x07) OR
           (push_bit 6 (push_bit 6 (drop_bit 12 c AND 0x3F) OR (drop_bit 6 c AND 0x3F)) OR (c AND 0x3F)) = c"
proof -
  have h: "unat c < 2 ^ 21" using assms by (simp add: word_less_nat_alt)
  show ?thesis unfolding word_codec_consts
    by (rule bit_word_eqI) (auto simp: bit_simps dest: bit_below[OF h] split: nat_diff_split_asm)
qed

lemma unat_lead_bytes:
  "unat (ucast (drop_bit 6 c AND 0x1F) OR 0xC0 :: byte) = 192 + unat c div 64 mod 32"
  "unat (ucast (drop_bit 12 c AND 0x0F) OR 0xE0 :: byte) = 224 + unat c div 4096 mod 16"
  "unat (ucast (drop_bit 18 c AND 0x07) OR 0xF0 :: byte) = 240 + unat c div 262144 mod 8"
  by (simp_all add: word_codec_consts unat_tag_field)

lemma next_code_point_encode_two:
  assumes "\<not> c < 0x80" "c < 0x800"
  shows "next_code_point (encode_utf8_raw c @ rest) = Some (c, rest)"
proof -
  define b0 :: byte where "b0 = ucast (drop_bit 6 c AND 0x1F) OR 0xC0"
  define b1 :: byte where "b1 = ucast (c AND 0x3F) OR 0x80"
  have e: "encode_utf8_raw c = [b0, b1]"
    using assms by (simp add: encode_utf8_raw_def len_utf8_def word_less_nat_alt b0_def b1_def)
  have v: "utf8_acc_cont_byte (utf8_first_byte b0 2) b1 = c"
    unfolding b0_def b1_def by (simp only: cont_acc lead_payload decode_two[OF assms(2)])
  have "unat c div 64 < 32" using assms(2) by (simp add: word_less_nat_alt)
  then have "\<not> b0 < 128" "\<not> 0xE0 \<le> b0"
    by (simp_all add: b0_def word_less_nat_alt word_le_nat_alt unat_lead_bytes)
  then show ?thesis by (simp add: e v)
qed

lemma next_code_point_encode_three:
  assumes "\<not> c < 0x800" "c < 0x10000"
  shows "next_code_point (encode_utf8_raw c @ rest) = Some (c, rest)"
proof -
  define b0 :: byte where "b0 = ucast (drop_bit 12 c AND 0x0F) OR 0xE0"
  define b1 :: byte where "b1 = ucast (drop_bit 6 c AND 0x3F) OR 0x80"
  define b2 :: byte where "b2 = ucast (c AND 0x3F) OR 0x80"
  have e: "encode_utf8_raw c = [b0, b1, b2]"
    using assms by (simp add: encode_utf8_raw_def len_utf8_def word_less_nat_alt b0_def b1_def b2_def)
  have v: "push_bit 12 (utf8_first_byte b0 2) OR utf8_acc_cont_byte (ucast (b1 AND 0x3F)) b2 = c"
    unfolding b0_def b1_def b2_def
    by (simp only: cont_acc cont_payload lead_payload decode_three[OF assms(2)])
  have "unat c div 4096 < 16" using assms(2) by (simp add: word_less_nat_alt)
  then have "\<not> b0 < 128" "0xE0 \<le> b0" "\<not> 0xF0 \<le> b0"
    by (simp_all add: b0_def word_less_nat_alt word_le_nat_alt unat_lead_bytes)
  then show ?thesis by (simp add: e v Let_def)
qed

lemma next_code_point_encode_four:
  assumes "\<not> c < 0x10000" "c < 0x110000"
  shows "next_code_point (encode_utf8_raw c @ rest) = Some (c, rest)"
proof -
  define b0 :: byte where "b0 = ucast (drop_bit 18 c AND 0x07) OR 0xF0"
  define b1 :: byte where "b1 = ucast (drop_bit 12 c AND 0x3F) OR 0x80"
  define b2 :: byte where "b2 = ucast (drop_bit 6 c AND 0x3F) OR 0x80"
  define b3 :: byte where "b3 = ucast (c AND 0x3F) OR 0x80"
  have e: "encode_utf8_raw c = [b0, b1, b2, b3]"
    using assms by (simp add: encode_utf8_raw_def len_utf8_def word_less_nat_alt b0_def b1_def b2_def b3_def)
  have v: "push_bit 18 (utf8_first_byte b0 2 AND 7) OR
             utf8_acc_cont_byte (utf8_acc_cont_byte (ucast (b1 AND 0x3F)) b2) b3 = c"
    unfolding b0_def b1_def b2_def b3_def
    by (simp only: cont_acc cont_payload lead_payload decode_four[OF assms(2)])
  have "\<not> b0 < 128" "0xE0 \<le> b0" "0xF0 \<le> b0"
    by (simp_all add: b0_def word_less_nat_alt word_le_nat_alt unat_lead_bytes)
  then show ?thesis by (simp add: e v Let_def del: push_bit_and)
qed

lemma next_code_point_encode:
  assumes "c < 0x110000"
  shows "next_code_point (encode_utf8_raw c @ rest) = Some (c, rest)"
proof (cases "c < 0x80")
  case True
  then have "unat (ucast c :: byte) < 128"
    by (simp add: unsigned_ucast_eq take_bit_eq_mod word_less_nat_alt)
  with True show ?thesis
    by (simp add: encode_utf8_raw_def len_utf8_def word_less_nat_alt decode_one)
next
  case False
  then show ?thesis
    using assms next_code_point_encode_two next_code_point_encode_three next_code_point_encode_four
    by (meson not_le)
qed

lemma length_encode_utf8_raw: "length (encode_utf8_raw c) = len_utf8 c"
  by (simp add: encode_utf8_raw_def len_utf8_def Let_def)

lemma len_utf8_bounds: "1 \<le> len_utf8 c" "len_utf8 c \<le> 4"
  by (simp_all add: len_utf8_def)

lemma chars_Nil: "chars [] = []"
  by (subst chars.simps) simp

lemma chars_encode_append:
  "c < 0x110000 \<Longrightarrow> chars (encode_utf8_raw c @ rest) = c # chars rest"
  by (subst chars.simps) (simp add: next_code_point_encode)

text \<open>
  C15. Decoding inverts encoding: \<open>str::chars\<close> on the UTF-8 encoding of scalar
  values (code points below 0x110000) yields those values again.
\<close>

theorem chars_encode_str: "\<forall>c \<in> set cs. c < 0x110000 \<Longrightarrow> chars (encode_str cs) = cs"
  by (induction cs) (simp_all add: encode_str_def chars_Nil chars_encode_append)

theorem chars_encode_str_witness:
  "chars (encode_str [0x41, 0x7FF, 0xFFFF, 0x10000]) = [0x41, 0x7FF, 0xFFFF, 0x10000]"
  using chars_encode_str[of "[0x41, 0x7FF, 0xFFFF, 0x10000 :: char32]"] by simp

lemma count_lead_bytes_one:
  "length (filter (\<lambda>b. \<not> utf8_is_cont_byte b) (encode_utf8_raw c)) = 1"
proof -
  have "length (filter (\<lambda>b. \<not> utf8_is_cont_byte b) (encode_utf8_raw c))
        = length (filter (\<lambda>n. \<not> (128 \<le> n \<and> n < 192)) (map unat (encode_utf8_raw c)))"
    by (simp add: filter_map utf8_is_cont_byte_unat comp_def)
  also have "\<dots> = 1"
    by (simp add: unat_encode_utf8_raw word_less_nat_alt)
  finally show ?thesis .
qed

lemma count_chars_encode_str: "count_chars (encode_str cs) = length cs"
  by (induction cs) (simp_all add: count_chars_def encode_str_def count_lead_bytes_one)

lemma length_encode_str: "length (encode_str cs) = (\<Sum>c\<leftarrow>cs. len_utf8 c)"
  by (induction cs) (simp_all add: encode_str_def length_encode_utf8_raw)

end
