(* ===== verification/Counters.thy ===== *)
theory Counters
  imports Utf8
begin

text \<open>
  The four counters of \<open>src/src/lib.rs\<close> (\<open>get_size_in_bytes\<close>, \<open>get_num_lines\<close>,
  \<open>get_num_words\<close>, \<open>get_num_char\<close>) and the standard-library iterators they count:
  \<open>str::lines\<close> (\<open>split_inclusive('\n')\<close> with the line ending stripped),
  \<open>str::split_ascii_whitespace\<close> (\<open><[u8]>::split\<close> on
  \<open>u8::is_ascii_whitespace\<close>, empty pieces dropped) and \<open>str::chars\<close>
  (\<open>Utf8.chars\<close>). Each counter is the length of the list its iterator yields. The
  lemmas give each count in closed form, relate the word count to a one-pass scanner,
  show that lines and words round-trip through joining, and bound every count by the
  byte length.
\<close>

subsection \<open>The iterators of the standard library\<close>

definition is_ascii_whitespace :: "byte \<Rightarrow> bool" where
  "is_ascii_whitespace b \<longleftrightarrow> b = 0x09 \<or> b = 0x0A \<or> b = 0x0C \<or> b = 0x0D \<or> b = 0x20"

fun split_slice_acc :: "(byte \<Rightarrow> bool) \<Rightarrow> rstr \<Rightarrow> rstr \<Rightarrow> rstr list" where
  "split_slice_acc p cur [] = [cur]"
| "split_slice_acc p cur (b # bs) =
     (if p b then cur # split_slice_acc p [] bs else split_slice_acc p (cur @ [b]) bs)"

definition split_slice :: "(byte \<Rightarrow> bool) \<Rightarrow> rstr \<Rightarrow> rstr list" where
  "split_slice p v = split_slice_acc p [] v"

definition split_ascii_whitespace :: "rstr \<Rightarrow> rstr list" where
  "split_ascii_whitespace s = filter (\<lambda>bytes. bytes \<noteq> []) (split_slice is_ascii_whitespace s)"

fun split_inclusive_acc :: "byte \<Rightarrow> rstr \<Rightarrow> rstr \<Rightarrow> rstr list" where
  "split_inclusive_acc sep cur [] = (if cur = [] then [] else [cur])"
| "split_inclusive_acc sep cur (b # bs) =
     (if b = sep then (cur @ [b]) # split_inclusive_acc sep [] bs
      else split_inclusive_acc sep (cur @ [b]) bs)"

definition split_inclusive :: "byte \<Rightarrow> rstr \<Rightarrow> rstr list" where
  "split_inclusive sep s = split_inclusive_acc sep [] s"

definition strip_suffix :: "byte \<Rightarrow> rstr \<Rightarrow> rstr option" where
  "strip_suffix c s = (if s \<noteq> [] \<and> last s = c then Some (butlast s) else None)"

definition lines_map :: "rstr \<Rightarrow> rstr" where
  "lines_map line =
     (case strip_suffix 0x0A line of
        None \<Rightarrow> line
      | Some line \<Rightarrow> (case strip_suffix 0x0D line of None \<Rightarrow> line | Some line \<Rightarrow> line))"

definition lines :: "rstr \<Rightarrow> rstr list" where
  "lines s = map lines_map (split_inclusive 0x0A s)"

subsection \<open>The counters\<close>

definition get_size_in_bytes :: "rstr \<Rightarrow> nat" where
  "get_size_in_bytes contents = length contents"

definition get_num_lines :: "rstr \<Rightarrow> nat" where
  "get_num_lines contents = length (lines contents)"

definition get_num_words :: "rstr \<Rightarrow> nat" where
  "get_num_words contents = length (split_ascii_whitespace contents)"

definition get_num_char :: "rstr \<Rightarrow> nat" where
  "get_num_char contents = length (chars contents)"

subsection \<open>Reference specifications\<close>

text \<open>
  The word count as a one-pass scanner with an in-word flag, the classic \<open>wc\<close> loop:
  a word starts at every non-whitespace byte that follows whitespace or the start.
\<close>

fun count_words_scan :: "bool \<Rightarrow> rstr \<Rightarrow> nat" where
  "count_words_scan in_word [] = 0"
| "count_words_scan in_word (b # bs) =
     (if is_ascii_whitespace b then count_words_scan False bs
      else (if in_word then 0 else 1) + count_words_scan True bs)"

subsection \<open>Words\<close>

lemma split_slice_acc_words:
  "length (filter (\<lambda>w. w \<noteq> []) (split_slice_acc is_ascii_whitespace cur s))
     = (if cur = [] then 0 else 1) + count_words_scan (cur \<noteq> []) s"
  by (induction s arbitrary: cur) auto

text \<open>
  C5. \<open>get_num_words\<close> (\<open>split_ascii_whitespace().count()\<close>) equals the one-pass
  scanner \<open>count_words_scan\<close>: the number of maximal runs of bytes that are not ASCII
  whitespace.
\<close>

theorem get_num_words_scan: "get_num_words s = count_words_scan False s"
  using split_slice_acc_words[where cur = "[]" and s = s]
  by (simp add: get_num_words_def split_ascii_whitespace_def split_slice_def)

lemma split_slice_acc_word:
  "\<forall>b \<in> set w. \<not> p b \<Longrightarrow> p sep \<Longrightarrow>
     split_slice_acc p cur (w @ sep # rest) = (cur @ w) # split_slice_acc p [] rest"
  by (induction w arbitrary: cur) auto

text \<open>
  C11. Splitting on ASCII whitespace inverts joining: nonempty words without whitespace,
  each followed by a space, split back into the same words.
\<close>

theorem split_ascii_whitespace_join:
  assumes "\<forall>w \<in> set ws. w \<noteq> [] \<and> (\<forall>b \<in> set w. \<not> is_ascii_whitespace b)"
  shows "split_ascii_whitespace (concat (map (\<lambda>w. w @ [0x20]) ws)) = ws"
proof -
  have sp: "is_ascii_whitespace 0x20" by (simp add: is_ascii_whitespace_def)
  have "split_slice_acc is_ascii_whitespace [] (concat (map (\<lambda>w. w @ [0x20]) ws)) = ws @ [[]]"
    using assms
    by (induction ws)
       (simp_all add: split_slice_acc_word[where p = is_ascii_whitespace and sep = "0x20", OF _ sp])
  with assms show ?thesis
    by (simp add: split_ascii_whitespace_def split_slice_def filter_id_conv)
qed

theorem split_ascii_whitespace_join_witness:
  "split_ascii_whitespace (concat (map (\<lambda>w. w @ [0x20]) [lit ''lorem'', lit ''ipsum'']))
     = [lit ''lorem'', lit ''ipsum'']"
proof -
  have h: "\<forall>w \<in> set [lit ''lorem'', lit ''ipsum'']. w \<noteq> [] \<and> (\<forall>b \<in> set w. \<not> is_ascii_whitespace b)"
    by (simp add: is_ascii_whitespace_def)
  show ?thesis using split_ascii_whitespace_join[OF h] by simp
qed

subsection \<open>Lines\<close>

lemma split_inclusive_acc_length:
  "sep \<notin> set cur \<Longrightarrow> length (split_inclusive_acc sep cur s)
     = count_list s sep + (if cur @ s \<noteq> [] \<and> last (cur @ s) \<noteq> sep then 1 else 0)"
  by (induction s arbitrary: cur) (auto split: if_splits)

text \<open>
  C6. \<open>get_num_lines\<close> (\<open>lines().count()\<close>) is the number of line feeds, plus one
  when the input is nonempty and does not end in a line feed: no phantom empty last line,
  0 for the empty input, and a carriage return alone never ends a line.
\<close>

theorem get_num_lines_count:
  "get_num_lines s = count_list s 0x0A + (if s \<noteq> [] \<and> last s \<noteq> 0x0A then 1 else 0)"
  using split_inclusive_acc_length[where sep = "0x0A" and cur = "[]" and s = s]
  by (simp add: get_num_lines_def lines_def split_inclusive_def)

lemma split_inclusive_acc_line:
  "sep \<notin> set l \<Longrightarrow>
     split_inclusive_acc sep cur (l @ sep # rest) = (cur @ l @ [sep]) # split_inclusive_acc sep [] rest"
  by (induction l arbitrary: cur) auto

lemma lines_map_terminated: "l = [] \<or> last l \<noteq> 0x0D \<Longrightarrow> lines_map (l @ [0x0A]) = l"
  by (auto simp: lines_map_def strip_suffix_def)

text \<open>
  C10. \<open>lines\<close> inverts terminating each line with a line feed, for lines that hold no
  line feed and do not end in a carriage return (which \<open>lines\<close> would strip).
\<close>

theorem lines_join:
  assumes "\<forall>l \<in> set ls. 0x0A \<notin> set l \<and> (l = [] \<or> last l \<noteq> 0x0D)"
  shows "lines (concat (map (\<lambda>l. l @ [0x0A]) ls)) = ls"
proof -
  have "map lines_map (split_inclusive_acc 0x0A [] (concat (map (\<lambda>l. l @ [0x0A]) ls))) = ls"
    using assms
  proof (induction ls)
    case (Cons l ls)
    then show ?case
      by (simp add: split_inclusive_acc_line lines_map_terminated)
  qed simp
  then show ?thesis by (simp add: lines_def split_inclusive_def)
qed

theorem lines_join_witness:
  "lines (concat (map (\<lambda>l. l @ [0x0A]) [lit ''a'', [], lit ''b''])) = [lit ''a'', [], lit ''b'']"
proof -
  have h: "\<forall>l \<in> set [lit ''a'', [], lit ''b'']. 0x0A \<notin> set l \<and> (l = [] \<or> last l \<noteq> 0x0D)"
    by simp
  show ?thesis using lines_join[OF h] by simp
qed

subsection \<open>Bounds\<close>

lemma count_words_scan_le: "count_words_scan b s \<le> length s"
proof (induction s arbitrary: b)
  case (Cons x s)
  from Cons.IH[of True] Cons.IH[of False] show ?case by auto
qed simp

lemma count_list_le_length: "count_list xs x \<le> length xs"
  by (induction xs) auto

lemma count_list_last_le:
  "count_list s x + (if s \<noteq> [] \<and> last s \<noteq> x then 1 else 0) \<le> length s"
proof (induction s rule: rev_induct)
  case (snoc y s)
  have "count_list s x \<le> length s" by (rule count_list_le_length)
  then show ?case by auto
qed simp

lemma chars_length_le: "length (chars s) \<le> length s"
proof (induction s rule: chars.induct)
  case (1 bs)
  show ?case
  proof (cases "next_code_point bs")
    case None
    then show ?thesis by (subst chars.simps) simp
  next
    case (Some p)
    obtain c rest where p: "p = (c, rest)" by fastforce
    have "length rest < length bs"
      using Some p by (cases bs rule: next_code_point.cases)
        (auto simp: Let_def split: if_splits list.splits)
    with "1.IH"[OF Some p[symmetric]] Some p show ?thesis
      by (subst chars.simps) simp
  qed
qed

text \<open>
  C8. No count exceeds the byte length: lines, words and characters are each at most
  \<open>get_size_in_bytes\<close>; in particular the byte size is never below the character count,
  and no count can overflow a \<open>usize\<close> that holds the length.
\<close>

theorem counts_bounded:
  "get_num_lines s \<le> get_size_in_bytes s \<and> get_num_words s \<le> get_size_in_bytes s
   \<and> get_num_char s \<le> get_size_in_bytes s"
  using count_list_last_le[of s "0x0A"] count_words_scan_le[of False s] chars_length_le[of s]
    split_inclusive_acc_length[where sep = "0x0A" and cur = "[]" and s = s]
    split_slice_acc_words[where cur = "[]" and s = s]
  by (simp add: get_num_lines_def lines_def split_inclusive_def get_num_words_def
      split_ascii_whitespace_def split_slice_def get_num_char_def get_size_in_bytes_def)

subsection \<open>Characters and bytes\<close>

lemma length_chars_encode_str:
  "\<forall>c \<in> set cs. c < 0x110000 \<Longrightarrow> length (chars (encode_str cs)) = length cs"
  by (induction cs) (simp_all add: encode_str_def chars_Nil chars_encode_append)

text \<open>
  C7. On a string that encodes the scalar values \<open>cs\<close>, \<open>get_num_char\<close>
  (\<open>chars().count()\<close>) is the number of scalar values, not of bytes.
\<close>

theorem get_num_char_encode_str:
  "\<forall>c \<in> set cs. c < 0x110000 \<Longrightarrow> get_num_char (encode_str cs) = length cs"
  by (simp add: get_num_char_def length_chars_encode_str)

theorem get_num_char_encode_str_witness:
  "get_num_char (encode_str [0x41, 0xE9, 0x20AC, 0x1F600]) = 4"
  using get_num_char_encode_str[of "[0x41, 0xE9, 0x20AC, 0x1F600 :: char32]"] by simp

text \<open>
  C9. On pure ASCII input the byte size equals the character count.
\<close>

theorem ascii_size_eq_chars:
  assumes "\<forall>c \<in> set cs. c < 0x80"
  shows "get_size_in_bytes (encode_str cs) = get_num_char (encode_str cs)"
proof -
  have "(\<Sum>c\<leftarrow>cs. len_utf8 c) = length cs"
    using assms by (induction cs) (simp_all add: len_utf8_def)
  moreover have "\<forall>c \<in> set cs. c < 0x110000"
    using assms by (auto simp: word_less_nat_alt)
  ultimately show ?thesis
    by (simp add: get_size_in_bytes_def length_encode_str get_num_char_def length_chars_encode_str)
qed

theorem ascii_size_eq_chars_witness:
  "get_size_in_bytes (encode_str [0x74, 0x65, 0x73, 0x74]) = get_num_char (encode_str [0x74, 0x65, 0x73, 0x74])"
  using ascii_size_eq_chars[of "[0x74, 0x65, 0x73, 0x74 :: char32]"] by simp

end
