(* ===== verification/Config.thy ===== *)
theory Config
  imports WC_Prelude
begin

text \<open>
  The argument parser of \<open>src/src/lib.rs\<close>: the enum \<open>Flag\<close> (constructors
  \<open>Flag_Default\<close> \<dots> \<open>Flag_Char\<close> for \<open>Flag::Default\<close> \<dots> \<open>Flag::Char\<close>),
  \<open>Flag::from_str\<close> (\<open>flag_from_str\<close>), the struct \<open>Config\<close> (record \<open>config\<close>)
  and \<open>Config::build\<close> (\<open>build\<close>). The \<open>&'static str\<close> errors of \<open>build\<close> are the
  constructors of \<open>build_error\<close>; \<open>build_error_msg\<close> gives their text. \<open>build_spec\<close>
  is the contract of the specification, which recognises only the four flag tokens; the
  lemmas show that \<open>build\<close> meets it whenever no argument is the empty string, and on
  which input the two differ.
\<close>

datatype flag = Flag_Default | Flag_Size | Flag_Line | Flag_Word | Flag_Char

definition flag_from_str :: "rstr \<Rightarrow> flag option" where
  "flag_from_str s =
     (if s = lit ''-l'' then Some Flag_Line
      else if s = lit ''-c'' then Some Flag_Size
      else if s = lit ''-w'' then Some Flag_Word
      else if s = lit ''-m'' then Some Flag_Char
      else if s = lit '''' then Some Flag_Default
      else None)"

record config =
  file_path :: rstr
  command :: flag
  is_stdin :: bool

datatype build_error = NotEnoughArguments | FlagNotRecognized | TooManyArguments

definition build_error_msg :: "build_error \<Rightarrow> rstr" where
  "build_error_msg e =
     (case e of
        NotEnoughArguments \<Rightarrow> lit ''Not enough arguments''
      | FlagNotRecognized \<Rightarrow> lit ''Flag not recognized''
      | TooManyArguments \<Rightarrow> lit ''Too many arguments'')"

text \<open>
  \<open>Flag::from_str("").unwrap()\<close> is \<open>the (flag_from_str (lit ''''))\<close>; the lemma
  \<open>flag_from_str_empty\<close> shows the \<open>unwrap\<close> never panics.
\<close>

definition build :: "rstr list \<Rightarrow> build_error + config" where
  "build args =
     (if length args < 2 then Inl NotEnoughArguments
      else if length args = 2 then
        (let argument = args ! 1;
             potential_flag = flag_from_str argument
         in case potential_flag of
              Some flag \<Rightarrow> Inr \<lparr>file_path = lit '''', command = flag, is_stdin = True\<rparr>
            | None \<Rightarrow> Inr \<lparr>file_path = argument, command = the (flag_from_str (lit '''')),
                           is_stdin = False\<rparr>)
      else if length args = 3 then
        (let flag = args ! 1;
             file_path = args ! 2;
             command_flag = flag_from_str flag
         in case command_flag of
              Some command_flag \<Rightarrow> Inr \<lparr>file_path = file_path, command = command_flag, is_stdin = False\<rparr>
            | None \<Rightarrow> Inl FlagNotRecognized)
      else Inl TooManyArguments)"

subsection \<open>The contract of the specification\<close>

definition spec_flag :: "rstr \<Rightarrow> flag option" where
  "spec_flag s =
     (if s = lit ''-l'' then Some Flag_Line
      else if s = lit ''-c'' then Some Flag_Size
      else if s = lit ''-w'' then Some Flag_Word
      else if s = lit ''-m'' then Some Flag_Char
      else None)"

definition build_spec :: "rstr list \<Rightarrow> build_error + config" where
  "build_spec args =
     (if length args < 2 then Inl NotEnoughArguments
      else if length args = 2 then
        (case spec_flag (args ! 1) of
           Some f \<Rightarrow> Inr \<lparr>file_path = [], command = f, is_stdin = True\<rparr>
         | None \<Rightarrow> Inr \<lparr>file_path = args ! 1, command = Flag_Default, is_stdin = False\<rparr>)
      else if length args = 3 then
        (case spec_flag (args ! 1) of
           Some f \<Rightarrow> Inr \<lparr>file_path = args ! 2, command = f, is_stdin = False\<rparr>
         | None \<Rightarrow> Inl FlagNotRecognized)
      else Inl TooManyArguments)"

subsection \<open>Lemmas\<close>

lemma flag_from_str_empty: "flag_from_str [] = Some Flag_Default"
  by (simp add: flag_from_str_def)

lemma flag_from_str_spec: "s \<noteq> [] \<Longrightarrow> flag_from_str s = spec_flag s"
  by (simp add: flag_from_str_def spec_flag_def)

lemma flag_from_str_Some:
  "flag_from_str s = Some f \<longleftrightarrow>
     (s = lit ''-l'' \<and> f = Flag_Line) \<or> (s = lit ''-c'' \<and> f = Flag_Size) \<or>
     (s = lit ''-w'' \<and> f = Flag_Word) \<or> (s = lit ''-m'' \<and> f = Flag_Char) \<or>
     (s = [] \<and> f = Flag_Default)"
  by (auto simp: flag_from_str_def)

lemma build_agrees_spec_at:
  "(1 < length args \<Longrightarrow> args ! 1 \<noteq> []) \<Longrightarrow> build args = build_spec args"
  by (simp add: build_def build_spec_def Let_def flag_from_str_spec flag_from_str_empty
      split: option.splits)

lemma build_agrees_spec:
  assumes ne: "[] \<notin> set args"
  shows "build args = build_spec args"
proof -
  have "1 < length args \<Longrightarrow> args ! 1 \<noteq> []" using ne nth_mem by fastforce
  then show ?thesis by (rule build_agrees_spec_at)
qed

lemma build_spec_file_path:
  "[] \<notin> set args \<Longrightarrow> build_spec args = Inr cfg \<Longrightarrow> \<not> is_stdin cfg \<Longrightarrow> file_path cfg \<noteq> []"
proof -
  assume ne: "[] \<notin> set args" and b: "build_spec args = Inr cfg" and f: "\<not> is_stdin cfg"
  have "Suc 0 < length args \<Longrightarrow> args ! Suc 0 \<noteq> []" "2 < length args \<Longrightarrow> args ! 2 \<noteq> []"
    using ne nth_mem by fastforce+
  with b f show ?thesis by (auto simp: build_spec_def split: if_splits option.splits)
qed

text \<open>
  C3. \<open>Config::build\<close> implements the contract of the specification
  (\<open>build_spec\<close>) on every argument list in which no argument is the empty string.
\<close>

theorem build_refines_spec:
  "[] \<notin> set args \<Longrightarrow> build args = build_spec args"
  by (rule build_agrees_spec)

theorem build_refines_spec_witness:
  "[] \<notin> set [lit ''wc'', lit ''-w'', lit ''notes.txt''] \<and>
   build [lit ''wc'', lit ''-w'', lit ''notes.txt''] = build_spec [lit ''wc'', lit ''-w'', lit ''notes.txt'']"
proof -
  have h: "[] \<notin> set [lit ''wc'', lit ''-w'', lit ''notes.txt'']" by simp
  show ?thesis using h build_refines_spec[OF h] by simp
qed

text \<open>
  C4. \<open>build\<close> fails exactly in three cases: fewer than one user argument
  (\<open>Not enough arguments\<close>), two user arguments whose first is no flag
  (\<open>Flag not recognized\<close>), more than two (\<open>Too many arguments\<close>). A single
  unrecognised argument never fails: it is read as a path.
\<close>

theorem build_error_cases:
  "build args = Inl e \<longleftrightarrow>
     (length args < 2 \<and> e = NotEnoughArguments) \<or>
     (length args = 3 \<and> flag_from_str (args ! 1) = None \<and> e = FlagNotRecognized) \<or>
     (3 < length args \<and> e = TooManyArguments)"
  by (auto simp: build_def Let_def split: option.splits)

theorem build_error_cases_witness:
  "(build [lit ''wc'', lit ''-z'', lit ''notes.txt''] = Inl FlagNotRecognized) \<and>
   (length [lit ''wc'', lit ''-z'', lit ''notes.txt''] = 3 \<and>
    flag_from_str ([lit ''wc'', lit ''-z'', lit ''notes.txt''] ! 1) = None)"
  using build_error_cases[of "[lit ''wc'', lit ''-z'', lit ''notes.txt'']" FlagNotRecognized]
  by (simp add: flag_from_str_def)

text \<open>
  C14. \<open>build\<close> succeeds exactly with one user argument (a recognised flag reads
  standard input with an empty label, anything else is a path read in default mode) or
  with a recognised flag followed by a path.
\<close>

theorem build_ok_cases:
  "build args = Inr cfg \<longleftrightarrow>
     (length args = 2 \<and>
        (case flag_from_str (args ! 1) of
           Some f \<Rightarrow> cfg = \<lparr>file_path = [], command = f, is_stdin = True\<rparr>
         | None \<Rightarrow> cfg = \<lparr>file_path = args ! 1, command = Flag_Default, is_stdin = False\<rparr>)) \<or>
     (length args = 3 \<and> flag_from_str (args ! 1) \<noteq> None \<and>
        cfg = \<lparr>file_path = args ! 2, command = the (flag_from_str (args ! 1)), is_stdin = False\<rparr>)"
  by (auto simp: build_def Let_def flag_from_str_empty split: option.splits)

theorem build_ok_cases_witness:
  "build [lit ''wc'', lit ''notes.txt''] =
     Inr \<lparr>file_path = lit ''notes.txt'', command = Flag_Default, is_stdin = False\<rparr> \<and>
   flag_from_str (lit ''notes.txt'') = None"
proof -
  have n: "flag_from_str (lit ''notes.txt'') = None" by (simp add: flag_from_str_def)
  have "length [lit ''wc'', lit ''notes.txt''] = 2" by simp
  with n show ?thesis
    using build_ok_cases[of "[lit ''wc'', lit ''notes.txt'']"
        "\<lparr>file_path = lit ''notes.txt'', command = Flag_Default, is_stdin = False\<rparr>"]
    by simp
qed

text \<open>
  C17. \<open>Config::build\<close> departs from the specification's resolver exactly on the
  empty argument, which \<open>Flag::from_str\<close> takes for the default flag: the two differ
  if and only if there are one or two user arguments and the first is empty. Then
  \<open>wc ""\<close> reads standard input, where the specification reads the path \<open>""\<close>, and
  \<open>wc "" f\<close> counts \<open>f\<close>, where the specification reports an unrecognised flag.
\<close>

theorem build_spec_divergence:
  "build args \<noteq> build_spec args \<longleftrightarrow> (length args = 2 \<or> length args = 3) \<and> args ! 1 = []"
proof (cases "1 < length args \<longrightarrow> args ! 1 \<noteq> []")
  case True
  then have "build args = build_spec args" by (intro build_agrees_spec_at) auto
  with True show ?thesis by auto
next
  case False
  then have "args ! 1 = []" "1 < length args" by auto
  then show ?thesis
    by (auto simp: build_def build_spec_def Let_def flag_from_str_empty spec_flag_def)
qed

theorem build_spec_divergence_witness:
  "build [lit ''wc'', [], lit ''f''] \<noteq> build_spec [lit ''wc'', [], lit ''f''] \<and>
   build [lit ''wc'', lit ''-x'', lit ''f''] = build_spec [lit ''wc'', lit ''-x'', lit ''f'']"
  using build_spec_divergence[of "[lit ''wc'', [], lit ''f'']"]
    build_spec_divergence[of "[lit ''wc'', lit ''-x'', lit ''f'']"]
  by simp

lemma build_stdin_path: "build args = Inr cfg \<Longrightarrow> is_stdin cfg \<Longrightarrow> file_path cfg = []"
  by (auto simp: build_def Let_def split: if_splits option.splits)

end
