(* ===== verification/Utf8_Valid.thy ===== *)
theory Utf8_Valid
  imports Utf8
begin

text \<open>
  UTF-8 validation, the check \<open>std::fs::read_to_string\<close> and
  \<open>Read::read_to_string\<close> run (through \<open>str::from_utf8\<close>) before \<open>run\<close> sees a
  \<open>String\<close>. The lemmas characterise it: validation accepts exactly the encodings of
  lists of scalar values (\<open>run_utf8_validation_encode_str\<close>,
  \<open>run_utf8_validation_scalars\<close>), so a \<open>String\<close> the program counts decodes back to
  itself, \<open>Chars::count\<close> agrees with the decoder on it, and each step of the decoder
  consumes exactly one encoded scalar value and leaves a valid string.
\<close>

subsection \<open>Validation\<close>

text \<open>
  core \<open>run_utf8_validation\<close>, the check behind \<open>str::from_utf8\<close> and
  \<open>read_to_string\<close>. Its \<open>next!\<close> macro steps to the next byte and fails with
  \<open>error_len = None\<close> when the input ends; \<open>err!(Some n)\<close> reports how many bytes of
  the bad sequence were read. The ASCII fast path of the source skips aligned blocks of
  ASCII bytes two words at a time; it accepts exactly the bytes the per-byte branch
  accepts, so the model steps byte by byte.
\<close>

record utf8_error =
  valid_up_to :: nat
  error_len :: "nat option"

definition utf8_char_width :: "byte \<Rightarrow> nat" where
  "utf8_char_width b =
     (if b < 0x80 then 1 else if b < 0xC2 then 0 else if b < 0xE0 then 2
      else if b < 0xF0 then 3 else if b < 0xF5 then 4 else 0)"

definition utf8_err :: "nat \<Rightarrow> nat option \<Rightarrow> utf8_error + unit" where
  "utf8_err old_offset l = Inl \<lparr>valid_up_to = old_offset, error_len = l\<rparr>"

fun run_utf8_validation_from :: "nat \<Rightarrow> rstr \<Rightarrow> utf8_error + unit" where
  "run_utf8_validation_from i [] = Inr ()"
| "run_utf8_validation_from i (first # rest) =
     (if first < 128 then run_utf8_validation_from (i + 1) rest
      else let w = utf8_char_width first in
      if w = 2 then
        (case rest of [] \<Rightarrow> utf8_err i None
         | b1 # r1 \<Rightarrow>
             if -64 \<le> sint b1 then utf8_err i (Some 1)
             else run_utf8_validation_from (i + 2) r1)
      else if w = 3 then
        (case rest of [] \<Rightarrow> utf8_err i None
         | b1 # r1 \<Rightarrow>
             if \<not> ((first = 0xE0 \<and> 0xA0 \<le> b1 \<and> b1 \<le> 0xBF)
                   \<or> (0xE1 \<le> first \<and> first \<le> 0xEC \<and> 0x80 \<le> b1 \<and> b1 \<le> 0xBF)
                   \<or> (first = 0xED \<and> 0x80 \<le> b1 \<and> b1 \<le> 0x9F)
                   \<or> (0xEE \<le> first \<and> first \<le> 0xEF \<and> 0x80 \<le> b1 \<and> b1 \<le> 0xBF))
             then utf8_err i (Some 1)
             else (case r1 of [] \<Rightarrow> utf8_err i None
                   | b2 # r2 \<Rightarrow>
                       if -64 \<le> sint b2 then utf8_err i (Some 2)
                       else run_utf8_validation_from (i + 3) r2))
      else if w = 4 then
        (case rest of [] \<Rightarrow> utf8_err i None
         | b1 # r1 \<Rightarrow>
             if \<not> ((first = 0xF0 \<and> 0x90 \<le> b1 \<and> b1 \<le> 0xBF)
                   \<or> (0xF1 \<le> first \<and> first \<le> 0xF3 \<and> 0x80 \<le> b1 \<and> b1 \<le> 0xBF)
                   \<or> (first = 0xF4 \<and> 0x80 \<le> b1 \<and> b1 \<le> 0x8F))
             then utf8_err i (Some 1)
             else (case r1 of [] \<Rightarrow> utf8_err i None
                   | b2 # r2 \<Rightarrow>
                       if -64 \<le> sint b2 then utf8_err i (Some 2)
                       else (case r2 of [] \<Rightarrow> utf8_err i None
                             | b3 # r3 \<Rightarrow>
                                 if -64 \<le> sint b3 then utf8_err i (Some 3)
                                 else run_utf8_validation_from (i + 4) r3)))
      else utf8_err i (Some 1))"

definition run_utf8_validation :: "rstr \<Rightarrow> utf8_error + unit" where
  "run_utf8_validation v = run_utf8_validation_from 0 v"

definition from_utf8 :: "rstr \<Rightarrow> utf8_error + rstr" where
  "from_utf8 v = (case run_utf8_validation v of Inl e \<Rightarrow> Inl e | Inr _ \<Rightarrow> Inr v)"

subsection \<open>Valid sequences of one scalar\<close>

lemma unat_char_of_nat: "v < 0x110000 \<Longrightarrow> unat (word_of_nat v :: char32) = v"
  by (simp add: unsigned_of_nat take_bit_nat_eq_self_iff)

lemma encode_bytes:
  "c < 0x80 \<Longrightarrow> \<exists>b0. encode_utf8_raw c = [b0] \<and> unat b0 = unat c"
  "\<not> c < 0x80 \<Longrightarrow> c < 0x800 \<Longrightarrow> \<exists>b0 b1. encode_utf8_raw c = [b0, b1] \<and>
     unat b0 = 192 + unat c div 64 mod 32 \<and> unat b1 = 128 + unat c mod 64"
  "\<not> c < 0x800 \<Longrightarrow> c < 0x10000 \<Longrightarrow> \<exists>b0 b1 b2. encode_utf8_raw c = [b0, b1, b2] \<and>
     unat b0 = 224 + unat c div 4096 mod 16 \<and> unat b1 = 128 + unat c div 64 mod 64 \<and>
     unat b2 = 128 + unat c mod 64"
  "\<not> c < 0x10000 \<Longrightarrow> \<exists>b0 b1 b2 b3. encode_utf8_raw c = [b0, b1, b2, b3] \<and>
     unat b0 = 240 + unat c div 262144 mod 8 \<and> unat b1 = 128 + unat c div 4096 mod 64 \<and>
     unat b2 = 128 + unat c div 64 mod 64 \<and> unat b3 = 128 + unat c mod 64"
  using unat_encode_utf8_raw[of c]
  by (auto simp: word_less_nat_alt Cons_eq_map_conv)

lemma valid_encode_one:
  assumes "c < 0x80"
  shows "run_utf8_validation_from i (encode_utf8_raw c @ rest) = run_utf8_validation_from (i + 1) rest"
  using encode_bytes(1)[OF assms] assms by (auto simp: byte_unat_conv)

lemma valid_encode_two:
  assumes "\<not> c < 0x80" "c < 0x800"
  shows "run_utf8_validation_from i (encode_utf8_raw c @ rest) = run_utf8_validation_from (i + 2) rest"
proof -
  obtain b0 b1 where e: "encode_utf8_raw c = [b0, b1]"
    and u: "unat b0 = 192 + unat c div 64 mod 32" "unat b1 = 128 + unat c mod 64"
    using encode_bytes(2)[OF assms] by blast
  have "128 \<le> unat c" "unat c < 2048" using assms by (simp_all add: word_less_nat_alt)
  then have q: "2 \<le> unat c div 64" "unat c div 64 < 32"
    using base64_digits[of "unat c"] by linarith+
  then have "unat c div 64 mod 32 = unat c div 64" by simp
  moreover have "unat c mod 64 < 64" by simp
  ultimately show ?thesis using q by (auto simp add: e u byte_unat_conv utf8_char_width_def)
qed

lemma valid_encode_three:
  assumes "\<not> c < 0x800" "c < 0x10000" "is_scalar c"
  shows "run_utf8_validation_from i (encode_utf8_raw c @ rest) = run_utf8_validation_from (i + 3) rest"
proof -
  obtain b0 b1 b2 where e: "encode_utf8_raw c = [b0, b1, b2]"
    and u: "unat b0 = 224 + unat c div 4096 mod 16" "unat b1 = 128 + unat c div 64 mod 64"
    "unat b2 = 128 + unat c mod 64"
    using encode_bytes(3)[OF assms(1,2)] by blast
  have r: "2048 \<le> unat c" "unat c < 65536" "\<not> (55296 \<le> unat c \<and> unat c \<le> 57343)"
    using assms by (auto simp: is_scalar_def word_less_nat_alt word_le_nat_alt)
  have a: "unat c mod 64 < 64" "unat c div 64 mod 64 < 64" "unat c div 4096 < 16"
    "unat c div 4096 = 0 \<Longrightarrow> 32 \<le> unat c div 64 mod 64"
    "unat c div 4096 = 13 \<Longrightarrow> unat c div 64 mod 64 \<le> 31"
    "0 < unat c div 4096 \<or> 32 \<le> unat c div 64 mod 64"
    using r base64_digits[of "unat c"] by linarith+
  show ?thesis using a
    by (cases "unat c div 4096 = 13") (auto simp add: e u byte_unat_conv utf8_char_width_def)
qed

lemma valid_encode_four:
  assumes "\<not> c < 0x10000" "is_scalar c"
  shows "run_utf8_validation_from i (encode_utf8_raw c @ rest) = run_utf8_validation_from (i + 4) rest"
proof -
  obtain b0 b1 b2 b3 where e: "encode_utf8_raw c = [b0, b1, b2, b3]"
    and u: "unat b0 = 240 + unat c div 262144 mod 8" "unat b1 = 128 + unat c div 4096 mod 64"
      "unat b2 = 128 + unat c div 64 mod 64" "unat b3 = 128 + unat c mod 64"
    using encode_bytes(4)[OF assms(1)] by blast
  have r: "65536 \<le> unat c" "unat c < 1114112"
    using assms by (auto simp: is_scalar_def word_less_nat_alt word_le_nat_alt)
  have d: "unat c div 262144 mod 8 = unat c div 262144"
    using r by simp
  have a: "unat c mod 64 < 64" "unat c div 64 mod 64 < 64" "unat c div 4096 mod 64 < 64"
    "unat c div 262144 \<le> 4"
    "unat c div 262144 = 0 \<Longrightarrow> 16 \<le> unat c div 4096 mod 64"
    "unat c div 262144 = 4 \<Longrightarrow> unat c div 4096 mod 64 < 16"
    using r base64_digits[of "unat c"] by linarith+
  show ?thesis using a
    by (cases "unat c div 262144 = 0"; cases "unat c div 262144 = 4")
       (auto simp add: e u d byte_unat_conv utf8_char_width_def)
qed

lemma valid_encode_char:
  assumes "is_scalar c"
  shows "run_utf8_validation_from i (encode_utf8_raw c @ rest) = run_utf8_validation_from (i + len_utf8 c) rest"
  using assms valid_encode_one valid_encode_two valid_encode_three valid_encode_four
  by (simp add: len_utf8_def)

lemma valid_from_encode_str:
  "\<forall>c\<in>set cs. is_scalar c \<Longrightarrow> run_utf8_validation_from i (encode_str cs) = Inr ()"
  by (induction cs arbitrary: i) (simp_all add: encode_str_def valid_encode_char)

lemma scalar_of_one:
  assumes "unat b0 < 128"
  shows "\<exists>c. is_scalar c \<and> encode_utf8_raw c = [b0]"
proof -
  define c :: char32 where "c = word_of_nat (unat b0)"
  have u: "unat c = unat b0" using assms by (simp only: c_def unat_char_of_nat)
  then have "is_scalar c" "c < 0x80" using assms by (simp_all add: is_scalar_def word_less_nat_alt word_le_nat_alt)
  moreover have "map unat (encode_utf8_raw c) = map unat [b0]"
    using \<open>c < 0x80\<close> u by (simp add: unat_encode_utf8_raw)
  ultimately show ?thesis by (metis map_unat_eq_iff)
qed

lemma scalar_of_two:
  assumes "194 \<le> unat b0" "unat b0 < 224" "128 \<le> unat b1" "unat b1 < 192"
  shows "\<exists>c. is_scalar c \<and> encode_utf8_raw c = [b0, b1]"
proof -
  define x where "x = unat b1 - 128"
  define y where "y = unat b0 - 192"
  have b: "unat b0 = 192 + y" "unat b1 = 128 + x" "x < 64" "2 \<le> y" "y < 32"
    using assms by (simp_all add: x_def y_def)
  define c :: char32 where "c = word_of_nat (x + 64 * y)"
  have u: "unat c = x + 64 * y" using b by (simp only: c_def unat_char_of_nat)
  then have "is_scalar c" "\<not> c < 0x80" "c < 0x800"
    using b by (simp_all add: is_scalar_def word_less_nat_alt word_le_nat_alt)
  moreover have "map unat (encode_utf8_raw c) = map unat [b0, b1]"
    using calculation(2,3) b by (simp add: unat_encode_utf8_raw u)
  ultimately show ?thesis by (metis map_unat_eq_iff)
qed

lemma scalar_of_three:
  assumes "224 \<le> unat b0" "unat b0 < 240" "128 \<le> unat b1" "unat b1 < 192"
    "unat b0 = 224 \<Longrightarrow> 160 \<le> unat b1" "unat b0 = 237 \<Longrightarrow> unat b1 < 160"
    "128 \<le> unat b2" "unat b2 < 192"
  shows "\<exists>c. is_scalar c \<and> encode_utf8_raw c = [b0, b1, b2]"
proof -
  define x where "x = unat b2 - 128"
  define y where "y = unat b1 - 128"
  define z where "z = unat b0 - 224"
  have b: "unat b0 = 224 + z" "unat b1 = 128 + y" "unat b2 = 128 + x" "x < 64" "y < 64" "z < 16"
    "z = 0 \<Longrightarrow> 32 \<le> y" "z = 13 \<Longrightarrow> y < 32"
    using assms unfolding x_def y_def z_def by (simp_all, (subgoal_tac "unat b0 = 224 \<or> unat b0 = 237"; auto)?)
  define v where "v = x + 64 * (y + 64 * z)"
  have d: "v mod 64 = x" "v div 64 mod 64 = y" "v div 64 div 64 = z"
    using base64_split[of x "y + 64 * z"] base64_split[of y z] b unfolding v_def by simp_all
  have r: "2048 \<le> v" "v < 65536" "\<not> (55296 \<le> v \<and> v \<le> 57343)"
    using b unfolding v_def by (cases "z = 0"; cases "z = 13"; cases "z < 13"; simp)+
  define c :: char32 where "c = word_of_nat v"
  have u: "unat c = v" unfolding c_def by (rule unat_char_of_nat) (use r in simp)
  then have "is_scalar c" "\<not> c < 0x800" "c < 0x10000"
    using r by (simp_all add: is_scalar_def word_less_nat_alt word_le_nat_alt)
  moreover have "map unat (encode_utf8_raw c) = map unat [b0, b1, b2]"
    using calculation(2,3) b d r by (simp add: unat_encode_utf8_raw u div_by_powers_of_64 word_less_nat_alt)
  ultimately show ?thesis by (metis map_unat_eq_iff)
qed

lemma scalar_of_four:
  assumes "240 \<le> unat b0" "unat b0 < 245" "128 \<le> unat b1" "unat b1 < 192"
    "unat b0 = 240 \<Longrightarrow> 144 \<le> unat b1" "unat b0 = 244 \<Longrightarrow> unat b1 < 144"
    "128 \<le> unat b2" "unat b2 < 192" "128 \<le> unat b3" "unat b3 < 192"
  shows "\<exists>c. is_scalar c \<and> encode_utf8_raw c = [b0, b1, b2, b3]"
proof -
  define x where "x = unat b3 - 128"
  define y where "y = unat b2 - 128"
  define z where "z = unat b1 - 128"
  define t where "t = unat b0 - 240"
  have b: "unat b0 = 240 + t" "unat b1 = 128 + z" "unat b2 = 128 + y" "unat b3 = 128 + x"
    "x < 64" "y < 64" "z < 64" "t < 5" "t = 0 \<Longrightarrow> 16 \<le> z" "t = 4 \<Longrightarrow> z < 16"
    using assms unfolding x_def y_def z_def t_def by (simp_all, (subgoal_tac "unat b0 = 240 \<or> unat b0 = 244"; auto)?)
  define v where "v = x + 64 * (y + 64 * (z + 64 * t))"
  have d: "v mod 64 = x" "v div 64 mod 64 = y" "v div 64 div 64 mod 64 = z" "v div 64 div 64 div 64 = t"
    using base64_split[of x "y + 64 * (z + 64 * t)"] base64_split[of y "z + 64 * t"]
      base64_split[of z t] b unfolding v_def by simp_all
  have r: "65536 \<le> v" "v < 1114112"
    using b unfolding v_def by (cases "t = 0"; cases "t = 4"; simp)+
  define c :: char32 where "c = word_of_nat v"
  have u: "unat c = v" unfolding c_def by (rule unat_char_of_nat) (use r in simp)
  then have "is_scalar c" "\<not> c < 0x10000"
    using r by (simp_all add: is_scalar_def word_less_nat_alt word_le_nat_alt)
  moreover have "map unat (encode_utf8_raw c) = map unat [b0, b1, b2, b3]"
    using calculation(2) b d r by (simp add: unat_encode_utf8_raw u div_by_powers_of_64 word_less_nat_alt)
  ultimately show ?thesis by (metis map_unat_eq_iff)
qed

subsection \<open>Whole strings\<close>

lemma cond_three_unat:
  fixes b b1 :: byte
  assumes "(b = 0xE0 \<and> 0xA0 \<le> b1 \<and> b1 \<le> 0xBF)
    \<or> (0xE1 \<le> b \<and> b \<le> 0xEC \<and> 0x80 \<le> b1 \<and> b1 \<le> 0xBF)
    \<or> (b = 0xED \<and> 0x80 \<le> b1 \<and> b1 \<le> 0x9F)
    \<or> (0xEE \<le> b \<and> b \<le> 0xEF \<and> 0x80 \<le> b1 \<and> (b1::byte) \<le> 0xBF)"
  shows "128 \<le> unat b1" "unat b1 < 192"
    "unat b = 224 \<Longrightarrow> 160 \<le> unat b1" "unat b = 237 \<Longrightarrow> unat b1 < 160"
  using assms by (auto simp: byte_unat_conv)

lemma cond_four_unat:
  fixes b b1 :: byte
  assumes "(b = 0xF0 \<and> 0x90 \<le> b1 \<and> b1 \<le> 0xBF)
    \<or> (0xF1 \<le> b \<and> b \<le> 0xF3 \<and> 0x80 \<le> b1 \<and> b1 \<le> 0xBF)
    \<or> (b = 0xF4 \<and> 0x80 \<le> b1 \<and> (b1::byte) \<le> 0x8F)"
  shows "128 \<le> unat b1" "unat b1 < 192"
    "unat b = 240 \<Longrightarrow> 144 \<le> unat b1" "unat b = 244 \<Longrightarrow> unat b1 < 144"
  using assms by (auto simp: byte_unat_conv)

lemma cont_unat:
  assumes "\<not> -64 \<le> sint (b::byte)"
  shows "128 \<le> unat b" "unat b < 192"
  using assms utf8_is_cont_byte_unat[of b] by (simp_all add: utf8_is_cont_byte_def)

lemma valid_step_decode:
  assumes ok: "\<forall>l. run_utf8_validation_from i (b # bs) \<noteq> utf8_err i l"
  shows "\<exists>c r. is_scalar c \<and> b # bs = encode_utf8_raw c @ r"
proof (cases "unat b < 128")
  case True
  then show ?thesis using scalar_of_one[OF True] by force
next
  case False
  then have nb: "\<not> b < 128" by (simp add: word_less_nat_alt)
  note conv = byte_unat_conv utf8_char_width_def
  consider (two) "194 \<le> unat b" "unat b < 224" | (three) "224 \<le> unat b" "unat b < 240"
    | (four) "240 \<le> unat b" "unat b < 245"
    using ok False by (simp add: conv utf8_err_def split: if_splits)
  then show ?thesis
  proof cases
    case two
    then have "utf8_char_width b = 2" by (simp add: conv)
    with ok nb obtain b1 r1 where "bs = b1 # r1" and k1: "\<not> -64 \<le> sint b1"
      by (cases bs) (simp_all add: utf8_err_def split: if_splits)
    then show ?thesis using scalar_of_two[OF two cont_unat[OF k1]] by force
  next
    case three
    then have "utf8_char_width b = 3" by (simp add: conv)
    with ok nb obtain b1 r1 where bs: "bs = b1 # r1"
      and c1: "(b = 0xE0 \<and> 0xA0 \<le> b1 \<and> b1 \<le> 0xBF)
        \<or> (0xE1 \<le> b \<and> b \<le> 0xEC \<and> 0x80 \<le> b1 \<and> b1 \<le> 0xBF)
        \<or> (b = 0xED \<and> 0x80 \<le> b1 \<and> b1 \<le> 0x9F)
        \<or> (0xEE \<le> b \<and> b \<le> 0xEF \<and> 0x80 \<le> b1 \<and> b1 \<le> 0xBF)"
      and ok1: "\<forall>l. (case r1 of [] \<Rightarrow> utf8_err i None | b2 # r2 \<Rightarrow>
          if -64 \<le> sint b2 then utf8_err i (Some 2) else run_utf8_validation_from (i + 3) r2) \<noteq> utf8_err i l"
      by (cases bs) (simp_all add: utf8_err_def split: if_splits, blast)
    from ok1 obtain b2 r2 where "r1 = b2 # r2" and k2: "\<not> -64 \<le> sint b2"
      by (cases r1) (simp_all add: utf8_err_def split: if_splits)
    then show ?thesis using scalar_of_three[OF three cond_three_unat[OF c1] cont_unat[OF k2]] bs by force
  next
    case four
    then have "utf8_char_width b = 4" by (simp add: conv)
    with ok nb obtain b1 r1 where bs: "bs = b1 # r1"
      and c1: "(b = 0xF0 \<and> 0x90 \<le> b1 \<and> b1 \<le> 0xBF)
        \<or> (0xF1 \<le> b \<and> b \<le> 0xF3 \<and> 0x80 \<le> b1 \<and> b1 \<le> 0xBF)
        \<or> (b = 0xF4 \<and> 0x80 \<le> b1 \<and> b1 \<le> 0x8F)"
      and ok1: "\<forall>l. (case r1 of [] \<Rightarrow> utf8_err i None | b2 # r2 \<Rightarrow>
          if -64 \<le> sint b2 then utf8_err i (Some 2)
          else (case r2 of [] \<Rightarrow> utf8_err i None | b3 # r3 \<Rightarrow>
            if -64 \<le> sint b3 then utf8_err i (Some 3) else run_utf8_validation_from (i + 4) r3)) \<noteq> utf8_err i l"
      by (cases bs) (simp_all add: utf8_err_def split: if_splits, blast)
    from ok1 obtain b2 b3 r3 where "r1 = b2 # b3 # r3"
      and k2: "\<not> -64 \<le> sint b2" and k3: "\<not> -64 \<le> sint b3"
      by (simp add: utf8_err_def split: list.splits if_splits)
    then show ?thesis
      using scalar_of_four[OF four cond_four_unat[OF c1] cont_unat[OF k2] cont_unat[OF k3]] bs by force
  qed
qed

lemma valid_from_decode:
  "run_utf8_validation_from i s = Inr () \<Longrightarrow> \<exists>cs. (\<forall>c\<in>set cs. is_scalar c) \<and> s = encode_str cs"
proof (induction "length s" arbitrary: i s rule: less_induct)
  case less
  show ?case
  proof (cases s)
    case Nil
    then show ?thesis by (intro exI[of _ "[]"]) (simp add: encode_str_def)
  next
    case (Cons b bs)
    have "\<forall>l. run_utf8_validation_from i s \<noteq> utf8_err i l"
      using less.prems by (simp add: utf8_err_def)
    then obtain c r where c: "is_scalar c" "s = encode_utf8_raw c @ r"
      using valid_step_decode[of i b bs] Cons by blast
    then have "run_utf8_validation_from (i + len_utf8 c) r = Inr ()"
      using less.prems by (simp add: valid_encode_char)
    moreover have "length r < length s"
      using c len_utf8_bounds(1)[of c] by (simp add: length_encode_utf8_raw)
    ultimately obtain cs where "\<forall>c\<in>set cs. is_scalar c" "r = encode_str cs"
      using less.hyps by blast
    then show ?thesis using c by (intro exI[of _ "c # cs"]) (simp add: encode_str_def)
  qed
qed

lemma chars_encode_str_scalars:
  "\<forall>c\<in>set cs. is_scalar c \<Longrightarrow> chars (encode_str cs) = cs"
  by (induction cs) (simp_all add: encode_str_def chars_Nil chars_encode_append is_scalar_def)

lemma valid_chars:
  assumes "run_utf8_validation s = Inr ()"
  obtains cs where "\<forall>c\<in>set cs. is_scalar c" "s = encode_str cs" "chars s = cs"
  using valid_from_decode[of 0 s] assms chars_encode_str_scalars
  by (auto simp: run_utf8_validation_def)

subsection \<open>Properties of validation\<close>

text \<open>
  C21. Validation accepts the UTF-8 encoding of every list of scalar values: every
  \<open>String\<close> the program could be given passes \<open>read_to_string\<close>'s check.
\<close>

theorem run_utf8_validation_encode_str:
  "\<forall>c\<in>set cs. is_scalar c \<Longrightarrow> run_utf8_validation (encode_str cs) = Inr ()"
  by (simp add: run_utf8_validation_def valid_from_encode_str)

theorem run_utf8_validation_encode_str_witness:
  "run_utf8_validation (encode_str [0x41, 0x7FF, 0xD7FF, 0xE000, 0x10000, 0x10FFFF]) = Inr ()"
  using run_utf8_validation_encode_str[of "[0x41, 0x7FF, 0xD7FF, 0xE000, 0x10000, 0x10FFFF]"]
  by (simp add: is_scalar_def)

text \<open>
  C22. Conversely, every byte string that validation accepts is the UTF-8 encoding of a
  list of scalar values: no overlong form, no surrogate and nothing above U+10FFFF gets
  through, so the type invariant of \<open>str\<close> holds for every string \<open>run\<close> counts.
\<close>

theorem run_utf8_validation_scalars:
  "run_utf8_validation s = Inr () \<Longrightarrow> \<exists>cs. (\<forall>c\<in>set cs. is_scalar c) \<and> s = encode_str cs"
  using valid_from_decode[of 0 s] by (simp add: run_utf8_validation_def)

theorem run_utf8_validation_scalars_witness:
  "run_utf8_validation [0x41, 0xC3, 0xA9, 0xF0, 0x9F, 0x98, 0x80] = Inr () \<and>
   (\<exists>cs. list_all is_scalar cs \<and> [0x41, 0xC3, 0xA9, 0xF0, 0x9F, 0x98, 0x80] = encode_str cs)"
proof -
  have v: "run_utf8_validation [0x41, 0xC3, 0xA9, 0xF0, 0x9F, 0x98, 0x80] = Inr ()"
    by (simp add: run_utf8_validation_def utf8_char_width_def utf8_err_def)
  show ?thesis using run_utf8_validation_scalars[OF v] v by (simp add: list_all_iff)
qed

text \<open>
  C23. Every valid string decodes and re-encodes to itself: \<open>str::chars\<close> loses no
  byte of a string that passed validation.
\<close>

theorem encode_str_chars:
  "run_utf8_validation s = Inr () \<Longrightarrow> encode_str (chars s) = s"
  by (erule valid_chars) simp

theorem encode_str_chars_witness:
  "run_utf8_validation [0x63, 0x61, 0x66, 0xC3, 0xA9] = Inr () \<and>
   encode_str (chars [0x63, 0x61, 0x66, 0xC3, 0xA9]) = [0x63, 0x61, 0x66, 0xC3, 0xA9]"
proof -
  have v: "run_utf8_validation [0x63, 0x61, 0x66, 0xC3, 0xA9] = Inr ()"
    by (simp add: run_utf8_validation_def utf8_char_width_def utf8_err_def)
  show ?thesis using encode_str_chars[OF v] v by simp
qed

text \<open>
  C24. On every valid string the specialised \<open>Chars::count\<close> (count the bytes that are
  not continuation bytes) agrees with counting the scalars the decoder yields.
\<close>

theorem count_chars_length_chars:
  "run_utf8_validation s = Inr () \<Longrightarrow> count_chars s = length (chars s)"
  by (erule valid_chars) (simp add: count_chars_encode_str)

theorem count_chars_length_chars_witness:
  "run_utf8_validation [0xE2, 0x82, 0xAC, 0x31] = Inr () \<and>
   count_chars [0xE2, 0x82, 0xAC, 0x31] = length (chars [0xE2, 0x82, 0xAC, 0x31])"
proof -
  have v: "run_utf8_validation [0xE2, 0x82, 0xAC, 0x31] = Inr ()"
    by (simp add: run_utf8_validation_def utf8_char_width_def utf8_err_def)
  show ?thesis using count_chars_length_chars[OF v] v by simp
qed

text \<open>
  C25. One step of \<open>str::chars\<close> on a valid string: \<open>next_code_point\<close> returns a
  scalar value whose UTF-8 encoding is exactly the bytes it consumed, and the bytes left
  are valid again. So the iteration keeps its input valid and consumes one encoded scalar
  value, one to four bytes, per step until the string is empty.
\<close>

theorem next_code_point_valid:
  assumes "run_utf8_validation s = Inr ()" and "s \<noteq> []"
  shows "\<exists>c rest. next_code_point s = Some (c, rest) \<and> is_scalar c \<and>
           s = encode_utf8_raw c @ rest \<and> run_utf8_validation rest = Inr ()"
proof -
  obtain cs where sc: "\<forall>c\<in>set cs. is_scalar c" and s: "s = encode_str cs"
    using assms(1) by (rule valid_chars)
  with assms(2) obtain c cs' where cs: "cs = c # cs'" by (cases cs) (auto simp: encode_str_def)
  have "c < 0x110000" using sc cs by (simp add: is_scalar_def)
  then have "next_code_point s = Some (c, encode_str cs')"
    using s cs by (simp add: encode_str_def next_code_point_encode)
  moreover have "run_utf8_validation (encode_str cs') = Inr ()"
    using sc cs valid_from_encode_str[of cs' 0] by (simp add: run_utf8_validation_def)
  ultimately show ?thesis using sc cs s by (auto simp: encode_str_def)
qed

theorem next_code_point_valid_witness:
  "run_utf8_validation [0xE2, 0x82, 0xAC, 0x41] = Inr () \<and>
   next_code_point [0xE2, 0x82, 0xAC, 0x41] = Some (0x20AC, [0x41]) \<and>
   encode_utf8_raw 0x20AC = [0xE2, 0x82, 0xAC] \<and> run_utf8_validation [0x41] = Inr ()"
proof -
  have v: "run_utf8_validation [0xE2, 0x82, 0xAC, 0x41] = Inr ()"
    by (simp add: run_utf8_validation_def utf8_char_width_def utf8_err_def)
  obtain c rest where n: "next_code_point [0xE2, 0x82, 0xAC, 0x41] = Some (c, rest)"
    and e: "[0xE2, 0x82, 0xAC, 0x41] = encode_utf8_raw c @ rest" and r: "run_utf8_validation rest = Inr ()"
    using next_code_point_valid[OF v] by blast
  have n': "next_code_point [0xE2, 0x82, 0xAC, 0x41] = Some (0x20AC, [0x41])"
    by (simp add: utf8_first_byte_def utf8_acc_cont_byte_def Let_def)
  with n have c: "c = 0x20AC" "rest = [0x41]" by simp_all
  with e have "[0xE2, 0x82, 0xAC] @ [0x41] = encode_utf8_raw 0x20AC @ [0x41 :: byte]" by simp
  then have enc: "[0xE2, 0x82, 0xAC] = encode_utf8_raw 0x20AC" by (metis append1_eq_conv)
  show ?thesis
  proof (intro conjI)
    show "run_utf8_validation [0xE2, 0x82, 0xAC, 0x41] = Inr ()" by (rule v)
    show "next_code_point [0xE2, 0x82, 0xAC, 0x41] = Some (0x20AC, [0x41])" by (rule n')
    show "encode_utf8_raw 0x20AC = [0xE2, 0x82, 0xAC]" by (rule enc[symmetric])
    show "run_utf8_validation [0x41] = Inr ()" using r c by simp
  qed
qed

end
