(* ===== verification/Stdio.thy ===== *)
theory Stdio
  imports Utf8_Valid
begin

text \<open>
  The standard-library I/O that \<open>run\<close> of \<open>src/src/lib.rs\<close> calls, as explicit state
  passing over a \<open>world\<close>: the file system (a map from paths to entries), standard input
  as the sequence of results its successive \<open>read\<close> calls return, the bytes standard
  output has received, the results its successive \<open>write\<close> calls return, and the bytes
  of the printed line that the \<open>LineWriter\<close> buffer of \<open>Stdout\<close> still holds after a
  failed write (\<open>stdout_pending\<close>).

  \<^item> \<open>read_to_end\<close> is the loop of \<open>default_read_to_end\<close>: it appends what each read
    returns, stops at a read of zero bytes (end of file), retries a read that failed
    with \<open>Interrupted\<close> and stops at any other error, keeping the bytes read so far.
  \<^item> \<open>handle_ebadf\<close> is the wrapper of \<open>StdinRaw\<close>/\<open>StdoutRaw\<close>: a closed descriptor
    (\<open>EBADF\<close>) reads as end of file and writes as success.
  \<^item> \<open>append_to_string\<close> is the guard of \<open>Read::read_to_string\<close>: the bytes read
    must be UTF-8, and an I/O error of the read takes precedence over \<open>InvalidData\<close>.
  \<^item> \<open>stdin_read_to_string\<close> is \<open>io::stdin().read_to_string\<close> (through
    \<open>BufReader<StdinRaw>\<close>), \<open>fs_read_to_string\<close> is \<open>std::fs::read_to_string\<close>.
  \<^item> \<open>write_all\<close> is the loop that hands a buffer to the descriptor: a write may take
    part of it, a write of zero bytes fails with \<open>WriteZero\<close>, \<open>Interrupted\<close> is
    retried. \<open>println!\<close> formats its pieces into the line buffer of \<open>Stdout\<close>, and the
    final line feed makes \<open>LineWriterShim\<close> flush the buffer with
    \<open>BufWriter::flush_buf\<close>; \<open>println\<close> is that flush of the line and its line feed.
    When it fails, the bytes not yet written stay in the buffer and \<open>print_to\<close> panics
    with \<open>"failed printing to stdout"\<close>.
  \<^item> \<open>stdout_cleanup\<close> is the flush the runtime does at exit (\<open>std::rt::cleanup\<close>,
    \<open>io::cleanup\<close>): the buffer of \<open>Stdout\<close> is replaced and the old one dropped,
    which writes what it still holds and ignores any error.
\<close>

datatype io_error = NotFound | PermissionDenied | IsADirectory | InvalidData
  | Interrupted | BadFileDescriptor | BrokenPipe | WriteZero | Uncategorized

datatype fs_entry = Regular rstr | Directory | Unreadable

text \<open>
  One result per \<open>read\<close> call: \<open>Data []\<close> is a read of zero bytes (end of file);
  when the list is exhausted every further read returns zero bytes.
\<close>

datatype read_result = Data rstr | Failed io_error

text \<open>
  One result per \<open>write\<close> call: \<open>Accepted n\<close> takes the first \<open>n\<close> bytes offered;
  when the list is exhausted every further write takes everything.
\<close>

datatype write_result = Accepted nat | WriteFailed io_error

record world =
  fs :: "rstr \<Rightarrow> fs_entry option"
  stdin :: "read_result list"
  stdout :: rstr
  stdout_writes :: "write_result list"
  stdout_pending :: rstr

datatype panic_payload = PrintFailed io_error

text \<open>A call either returns a value or unwinds with a panic.\<close>

datatype 'a completion = Returned 'a | Panicked panic_payload

subsection \<open>Reading\<close>

fun read_to_end :: "read_result list \<Rightarrow> rstr \<Rightarrow> (io_error + unit) \<times> rstr \<times> read_result list" where
  "read_to_end [] buf = (Inr (), buf, [])"
| "read_to_end (Data bytes # rest) buf =
     (if bytes = [] then (Inr (), buf, rest) else read_to_end rest (buf @ bytes))"
| "read_to_end (Failed e # rest) buf =
     (if e = Interrupted then read_to_end rest buf else (Inl e, buf, rest))"

definition handle_ebadf :: "io_error + unit \<Rightarrow> io_error + unit" where
  "handle_ebadf r = (case r of Inl BadFileDescriptor \<Rightarrow> Inr () | _ \<Rightarrow> r)"

definition append_to_string :: "rstr \<Rightarrow> io_error + unit \<Rightarrow> io_error + rstr" where
  "append_to_string appended ret =
     (case from_utf8 appended of
        Inl _ \<Rightarrow> (case ret of Inl e \<Rightarrow> Inl e | Inr _ \<Rightarrow> Inl InvalidData)
      | Inr s \<Rightarrow> (case ret of Inl e \<Rightarrow> Inl e | Inr _ \<Rightarrow> Inr s))"

definition stdin_read_to_string :: "world \<Rightarrow> (io_error + rstr) \<times> world" where
  "stdin_read_to_string w =
     (let (ret, bytes, rest) = read_to_end (stdin w) []
      in (append_to_string bytes (handle_ebadf ret), w\<lparr>stdin := rest\<rparr>))"

text \<open>
  \<open>std::fs::read_to_string\<close> opens the path (an empty path, a missing entry and an
  unreadable one fail there) and reads the file to its end: a regular file delivers its
  contents and then end of file, a directory fails its first read with \<open>EISDIR\<close>.
\<close>

definition fs_read_to_string :: "rstr \<Rightarrow> world \<Rightarrow> io_error + rstr" where
  "fs_read_to_string path w =
     (if path = [] then Inl NotFound
      else case fs w path of
        None \<Rightarrow> Inl NotFound
      | Some Unreadable \<Rightarrow> Inl PermissionDenied
      | Some Directory \<Rightarrow>
          (let (ret, bytes, _) = read_to_end [Failed IsADirectory] [] in append_to_string bytes ret)
      | Some (Regular contents) \<Rightarrow>
          (let (ret, bytes, _) = read_to_end [Data contents] [] in append_to_string bytes ret))"

subsection \<open>Writing\<close>

fun write_all :: "rstr \<Rightarrow> write_result list \<Rightarrow> rstr \<Rightarrow> (io_error + unit) \<times> rstr \<times> write_result list" where
  "write_all [] rs out = (Inr (), out, rs)"
| "write_all (b # bs) [] out = (Inr (), out @ b # bs, [])"
| "write_all (b # bs) (Accepted n # rs) out =
     (if n = 0 then (Inl WriteZero, out, rs)
      else write_all (drop n (b # bs)) rs (out @ take n (b # bs)))"
| "write_all (b # bs) (WriteFailed e # rs) out =
     (if e = Interrupted then write_all (b # bs) rs out
      else if e = BadFileDescriptor then (Inr (), out, rs)
      else (Inl e, out, rs))"

definition println :: "rstr \<Rightarrow> world \<Rightarrow> unit completion \<times> world" where
  "println line w =
     (let (r, out, rs) = write_all (line @ [0x0A]) (stdout_writes w) [];
          w' = w\<lparr>stdout := stdout w @ out, stdout_writes := rs\<rparr>
      in case r of
           Inl e \<Rightarrow> (Panicked (PrintFailed e), w'\<lparr>stdout_pending := drop (length out) (line @ [0x0A])\<rparr>)
         | Inr _ \<Rightarrow> (Returned (), w'))"

definition stdout_cleanup :: "world \<Rightarrow> world" where
  "stdout_cleanup w =
     (let (_, out, rs) = write_all (stdout_pending w) (stdout_writes w) []
      in w\<lparr>stdout := stdout w @ out, stdout_writes := rs, stdout_pending := []\<rparr>)"

subsection \<open>The contract of reading\<close>

text \<open>
  What the specification asks of reading: the whole input, as a UTF-8 string, or
  \<open>InvalidData\<close> (\<open>read_to_string_spec\<close>). A stream is \<open>benign\<close> when no read
  fails except with \<open>Interrupted\<close>; \<open>delivered\<close> is the data it delivers before its end.
\<close>

definition read_to_string_spec :: "rstr \<Rightarrow> io_error + rstr" where
  "read_to_string_spec bytes = (case from_utf8 bytes of Inl _ \<Rightarrow> Inl InvalidData | Inr s \<Rightarrow> Inr s)"

fun benign :: "read_result \<Rightarrow> bool" where
  "benign (Data _) = True"
| "benign (Failed e) = (e = Interrupted)"

fun delivered :: "read_result list \<Rightarrow> rstr" where
  "delivered [] = []"
| "delivered (Data bytes # rest) = (if bytes = [] then [] else bytes @ delivered rest)"
| "delivered (Failed _ # rest) = delivered rest"

subsection \<open>Lemmas on reading\<close>

lemma read_to_end_chunks:
  "\<forall>c\<in>set cs. c \<noteq> [] \<Longrightarrow> read_to_end (map Data cs @ rest) buf = read_to_end rest (buf @ concat cs)"
  by (induction cs arbitrary: buf) simp_all

lemma append_to_string_Inr: "append_to_string bytes (Inr ()) = read_to_string_spec bytes"
  by (simp add: append_to_string_def read_to_string_spec_def split: sum.splits)

lemma append_to_string_Inl: "append_to_string bytes (Inl e) = Inl e"
  by (simp add: append_to_string_def split: sum.splits)

lemma read_to_end_benign:
  "list_all benign s \<Longrightarrow> fst (read_to_end s buf) = Inr () \<and> fst (snd (read_to_end s buf)) = buf @ delivered s"
  by (induction s buf rule: read_to_end.induct) auto

lemma stdin_read_eof:
  assumes "stdin w = map Data cs @ Data [] # rest" and "\<forall>c\<in>set cs. c \<noteq> []"
  shows "stdin_read_to_string w = (read_to_string_spec (concat cs), w\<lparr>stdin := rest\<rparr>)"
  using assms
  by (simp add: stdin_read_to_string_def read_to_end_chunks handle_ebadf_def append_to_string_Inr)

lemma stdin_read_fail:
  assumes "stdin w = map Data cs @ Failed e # rest" and "\<forall>c\<in>set cs. c \<noteq> []"
    and "e \<noteq> Interrupted" and "e \<noteq> BadFileDescriptor"
  shows "stdin_read_to_string w = (Inl e, w\<lparr>stdin := rest\<rparr>)"
  using assms
  by (simp add: stdin_read_to_string_def read_to_end_chunks handle_ebadf_def append_to_string_Inl
      split: io_error.splits)

lemma stdin_read_closed:
  "stdin w = Failed BadFileDescriptor # rest \<Longrightarrow> stdin_read_to_string w = (Inr [], w\<lparr>stdin := rest\<rparr>)"
  by (simp add: stdin_read_to_string_def handle_ebadf_def append_to_string_def from_utf8_def
      run_utf8_validation_def)

lemma append_to_string_ok: "append_to_string bytes ret = Inr s \<Longrightarrow> s = bytes \<and> run_utf8_validation bytes = Inr ()"
  by (auto simp: append_to_string_def from_utf8_def split: sum.splits)

lemma stdin_read_ok: "stdin_read_to_string w = (Inr s, w1) \<Longrightarrow> run_utf8_validation s = Inr ()"
  by (auto simp: stdin_read_to_string_def split: prod.splits dest!: append_to_string_ok)

lemma stdin_read_frame:
  "stdin_read_to_string w = (r, w1) \<Longrightarrow> fs w1 = fs w \<and> stdout w1 = stdout w \<and> stdout_writes w1 = stdout_writes w"
  by (auto simp: stdin_read_to_string_def split: prod.splits)

lemma fs_read_regular: "fs_read_to_string path w = Inr s \<Longrightarrow> fs w path = Some (Regular s)"
  by (auto simp: fs_read_to_string_def append_to_string_def from_utf8_def split: if_splits option.splits fs_entry.splits sum.splits)

lemma fs_read_ok: "fs_read_to_string path w = Inr s \<Longrightarrow> run_utf8_validation s = Inr ()"
  by (auto simp: fs_read_to_string_def split: if_splits option.splits fs_entry.splits dest!: append_to_string_ok)

subsection \<open>Lemmas on writing\<close>

lemma write_all_Nil: "write_all bs [] out = (Inr (), out @ bs, [])"
  by (cases bs) simp_all

lemma println_writable:
  "stdout_writes w = [] \<Longrightarrow> println line w = (Returned (), w\<lparr>stdout := stdout w @ line @ [0x0A]\<rparr>)"
  by (cases w) (simp add: println_def write_all_Nil)

lemma write_all_prefix:
  "write_all bs rs out = (r, out', rs') \<Longrightarrow> \<exists>p q. out' = out @ p \<and> bs = p @ q"
proof (induction bs rs out arbitrary: r out' rs' rule: write_all.induct)
  case (1 rs out)
  then show ?case by simp
next
  case (2 b bs out)
  then show ?case by (intro exI[of _ "b # bs"] exI[of _ "[]"]) simp
next
  case (3 b bs n rs out)
  show ?case
  proof (cases "n = 0")
    case True
    then show ?thesis using "3.prems" by (intro exI[of _ "[]"] exI[of _ "b # bs"]) simp
  next
    case False
    then have "write_all (drop n (b # bs)) rs (out @ take n (b # bs)) = (r, out', rs')"
      using "3.prems" by simp
    then obtain p q where o: "out' = (out @ take n (b # bs)) @ p" and d: "drop n (b # bs) = p @ q"
      using "3.IH"[OF False] by blast
    have "b # bs = take n (b # bs) @ p @ q"
      by (simp only: d[symmetric] append_take_drop_id)
    with o show ?thesis by (intro exI[of _ "take n (b # bs) @ p"] exI[of _ q]) simp
  qed
next
  case (4 b bs e rs out)
  show ?case
  proof (cases "e = Interrupted")
    case True
    then have "write_all (b # bs) rs out = (r, out', rs')" using "4.prems" by simp
    then show ?thesis using "4.IH"[OF True] by blast
  next
    case False
    then show ?thesis using "4.prems" by (intro exI[of _ "[]"] exI[of _ "b # bs"]) (simp split: if_splits)
  qed
qed

lemma write_all_fail:
  assumes "list_all (\<lambda>n. 0 < n) ns" and "sum_list ns < length bs"
    and "e \<noteq> Interrupted" and "e \<noteq> BadFileDescriptor"
  shows "write_all bs (map Accepted ns @ WriteFailed e # rest) out = (Inl e, out @ take (sum_list ns) bs, rest)"
  using assms(1,2)
proof (induction ns arbitrary: bs out)
  case Nil
  with assms(3,4) show ?case by (cases bs) simp_all
next
  case (Cons n ns)
  then obtain b bs' where b: "bs = b # bs'" by (cases bs) auto
  have "write_all (drop n bs) (map Accepted ns @ WriteFailed e # rest) (out @ take n bs)
          = (Inl e, (out @ take n bs) @ take (sum_list ns) (drop n bs), rest)"
    using Cons by (intro Cons.IH) simp_all
  moreover have "take n bs @ take (sum_list ns) (drop n bs) = take (sum_list (n # ns)) bs"
    by (simp add: take_add)
  ultimately show ?case using Cons.prems b by simp
qed

lemma println_fail:
  assumes "stdout_writes w = map Accepted ns @ WriteFailed e # rest"
    and "list_all (\<lambda>n. 0 < n) ns" and "sum_list ns \<le> length line"
    and "e \<noteq> Interrupted" and "e \<noteq> BadFileDescriptor"
  shows "println line w = (Panicked (PrintFailed e),
           w\<lparr>stdout := stdout w @ take (sum_list ns) (line @ [0x0A]), stdout_writes := rest,
             stdout_pending := drop (sum_list ns) (line @ [0x0A])\<rparr>)"
  using assms write_all_fail[of ns "line @ [0x0A]" e rest "[]"] by (simp add: println_def)

lemma stdout_cleanup_flush:
  "stdout (stdout_cleanup w) = stdout w @ fst (snd (write_all (stdout_pending w) (stdout_writes w) []))
   \<and> fs (stdout_cleanup w) = fs w"
  by (simp add: stdout_cleanup_def split: prod.splits)

lemma println_prefix:
  assumes "println line w = (c, w')"
  shows "\<exists>p q. stdout w' = stdout w @ p \<and> line @ [0x0A] = p @ q \<and> fs w' = fs w \<and> stdin w' = stdin w"
proof -
  obtain r out rs where wa: "write_all (line @ [0x0A]) (stdout_writes w) [] = (r, out, rs)"
    by (cases "write_all (line @ [0x0A]) (stdout_writes w) []") auto
  then have "stdout w' = stdout w @ out" "fs w' = fs w" "stdin w' = stdin w"
    using assms by (auto simp: println_def Let_def split: sum.splits)
  with write_all_prefix[OF wa] show ?thesis by auto
qed

subsection \<open>Properties of reading\<close>

text \<open>
  C29. On a stream whose reads fail, if at all, only with \<open>Interrupted\<close>,
  \<open>io::stdin().read_to_string\<close> implements the contract of the specification: its
  result is that of the UTF-8 check on all the data delivered before end of file, however
  the data is split into reads and interrupted.
\<close>

theorem stdin_read_refines_spec:
  "list_all benign (stdin w) \<Longrightarrow> fst (stdin_read_to_string w) = read_to_string_spec (delivered (stdin w))"
proof -
  assume "list_all benign (stdin w)"
  moreover obtain r bytes rest where e: "read_to_end (stdin w) [] = (r, bytes, rest)"
    by (cases "read_to_end (stdin w) []") auto
  ultimately have "r = Inr ()" "bytes = delivered (stdin w)"
    using read_to_end_benign[of "stdin w" "[]"] by simp_all
  then show ?thesis by (simp add: stdin_read_to_string_def e handle_ebadf_def append_to_string_Inr)
qed

theorem stdin_read_refines_spec_witness:
  "list_all benign [Data (lit ''a''), Failed Interrupted, Data (lit ''b''), Data [], Data (lit ''c'')] \<and>
   fst (stdin_read_to_string \<lparr>fs = (\<lambda>_. None),
          stdin = [Data (lit ''a''), Failed Interrupted, Data (lit ''b''), Data [], Data (lit ''c'')],
          stdout = [], stdout_writes = [], stdout_pending = []\<rparr>) = Inr (lit ''ab'')"
proof -
  have b: "list_all benign [Data (lit ''a''), Failed Interrupted, Data (lit ''b''), Data [], Data (lit ''c'')]"
    by simp
  show ?thesis
    using b stdin_read_refines_spec[of "\<lparr>fs = (\<lambda>_. None),
          stdin = [Data (lit ''a''), Failed Interrupted, Data (lit ''b''), Data [], Data (lit ''c'')],
          stdout = [], stdout_writes = [], stdout_pending = []\<rparr>"]
    by (simp add: read_to_string_spec_def from_utf8_def run_utf8_validation_def)
qed

text \<open>
  C32. Interrupted reads are invisible: the read loop returns the same result and the same
  bytes on a stream with the \<open>Interrupted\<close> failures removed, and leaves the same
  stream behind up to those failures.
\<close>

theorem read_to_end_interrupts:
  "read_to_end (removeAll (Failed Interrupted) s) buf =
     (case read_to_end s buf of (r, bytes, rest) \<Rightarrow> (r, bytes, removeAll (Failed Interrupted) rest))"
  by (induction s buf rule: read_to_end.induct) auto

end
