(* ===== verification/Runner.thy ===== *)
theory Runner
  imports Counters Config Stdio
begin

text \<open>
  \<open>run\<close> of \<open>src/src/lib.rs\<close> over the \<open>world\<close> of theory \<open>Stdio\<close>. It reads
  the input through one of the two \<open>read_to_string\<close> calls of the source
  (\<open>io::stdin().read_to_string\<close> or \<open>std::fs::read_to_string\<close>), returns early with
  the error of the \<open>?\<close> operator, computes the four counts and prints one line with
  \<open>println!\<close>, which may panic. Its result is therefore a \<open>completion\<close>: the
  \<open>Result\<close> it returns, or the panic. The \<open>{}\<close> formatting of a \<open>usize\<close> is
  \<open>fmt_usize\<close>, and the \<open>match config.command\<close> is \<open>report_line\<close>.
\<close>

fun fmt_usize :: "nat \<Rightarrow> rstr" where
  "fmt_usize n =
     (if n < 10 then [word_of_nat (48 + n)]
      else fmt_usize (n div 10) @ [word_of_nat (48 + n mod 10)])"

definition report_line :: "flag \<Rightarrow> rstr \<Rightarrow> rstr \<Rightarrow> rstr" where
  "report_line cmd contents file_name =
     (let size = get_size_in_bytes contents;
          num_lines = get_num_lines contents;
          num_words = get_num_words contents;
          num_chars = get_num_char contents
      in case cmd of
           Flag_Size \<Rightarrow> fmt_usize size @ lit '' '' @ file_name
         | Flag_Line \<Rightarrow> fmt_usize num_lines @ lit '' '' @ file_name
         | Flag_Word \<Rightarrow> fmt_usize num_words @ lit '' '' @ file_name
         | Flag_Char \<Rightarrow> fmt_usize num_chars @ lit '' '' @ file_name
         | Flag_Default \<Rightarrow>
             fmt_usize num_lines @ lit ''  '' @ fmt_usize num_words @ lit '' '' @
             fmt_usize size @ lit '' '' @ file_name)"

definition run :: "config \<Rightarrow> world \<Rightarrow> (io_error + unit) completion \<times> world" where
  "run config w =
     (let file_name = file_path config;
          (read, w1) = (if is_stdin config then stdin_read_to_string w
                        else (fs_read_to_string (file_path config) w, w))
      in case read of
           Inl e \<Rightarrow> (Returned (Inl e), w1)
         | Inr contents \<Rightarrow>
             (case println (report_line (command config) contents file_name) w1 of
                (Panicked p, w2) \<Rightarrow> (Panicked p, w2)
              | (Returned _, w2) \<Rightarrow> (Returned (Inr ()), w2)))"

text \<open>Reading a decimal numeral back, to state that the output is the count.\<close>

definition parse_dec :: "rstr \<Rightarrow> nat" where
  "parse_dec ds = foldl (\<lambda>n d. 10 * n + (unat d - 48)) 0 ds"

declare fmt_usize.simps [simp del]

declare fmt_usize.simps [simp del]

subsection \<open>Lemmas\<close>

lemma unat_digit: "k < 10 \<Longrightarrow> unat (48 + word_of_nat k :: byte) = 48 + k"
proof -
  assume "k < 10"
  have "(48 + word_of_nat k :: byte) = word_of_nat (48 + k)" by simp
  also have "unat \<dots> = 48 + k" using \<open>k < 10\<close> by (subst unat_of_nat) simp
  finally show ?thesis .
qed

lemma parse_dec_snoc: "parse_dec (ds @ [d]) = 10 * parse_dec ds + (unat d - 48)"
  by (simp add: parse_dec_def)

lemma fmt_usize_no_newline: "0x0A \<notin> set (fmt_usize n)"
proof (induction n rule: fmt_usize.induct)
  case (1 n)
  have d: "(48 + word_of_nat k :: byte) \<noteq> 0x0A" if "k < 10" for k
  proof
    assume e: "(48 + word_of_nat k :: byte) = 0x0A"
    have "unat (48 + word_of_nat k :: byte) = 10" by (simp only: e) simp
    with unat_digit[OF that] show False by simp
  qed
  show ?case using 1 d by (simp only: fmt_usize.simps[of n]) (auto)
qed

lemma report_line_no_newline:
  "0x0A \<notin> set name \<Longrightarrow> 0x0A \<notin> set (report_line cmd contents name)"
  by (cases cmd) (simp_all add: report_line_def fmt_usize_no_newline)

lemma run_read_error:
  assumes "(if is_stdin cfg then stdin_read_to_string w else (fs_read_to_string (file_path cfg) w, w)) = (Inl e, w1)"
  shows "run cfg w = (Returned (Inl e), w1)"
  using assms by (simp add: run_def)

lemma run_read_ok:
  assumes "(if is_stdin cfg then stdin_read_to_string w else (fs_read_to_string (file_path cfg) w, w)) = (Inr contents, w1)"
  shows "run cfg w =
           (case println (report_line (command cfg) contents (file_path cfg)) w1 of
              (Panicked p, w2) \<Rightarrow> (Panicked p, w2)
            | (Returned _, w2) \<Rightarrow> (Returned (Inr ()), w2))"
  using assms by (simp add: run_def)

lemma read_input_cases:
  assumes "(if is_stdin cfg then stdin_read_to_string w else (fs_read_to_string (file_path cfg) w, w)) = (r, w1)"
  shows "fs w1 = fs w \<and> stdout w1 = stdout w \<and> stdout_writes w1 = stdout_writes w \<and>
         (\<forall>contents. r = Inr contents \<longrightarrow> run_utf8_validation contents = Inr ())"
  using assms stdin_read_frame[of w] stdin_read_ok[of w] fs_read_ok[of "file_path cfg" w]
  by (auto split: if_splits)

lemma read_input_obtain:
  obtains r w1 where
    "(if is_stdin cfg then stdin_read_to_string w else (fs_read_to_string (file_path cfg) w, w)) = (r, w1)"
  by (cases "if is_stdin cfg then stdin_read_to_string w else (fs_read_to_string (file_path cfg) w, w)") auto

lemma run_error_frame:
  assumes "run cfg w = (Returned (Inl e), w')"
  shows "stdout w' = stdout w \<and> fs w' = fs w"
proof -
  obtain r w1 where rd: "(if is_stdin cfg then stdin_read_to_string w else (fs_read_to_string (file_path cfg) w, w)) = (r, w1)"
    by (rule read_input_obtain)
  show ?thesis
  proof (cases r)
    case (Inl e')
    then show ?thesis using assms rd run_read_error read_input_cases[OF rd] by fastforce
  next
    case (Inr contents)
    then show ?thesis using assms run_read_ok[of cfg w contents w1] rd
      by (auto split: prod.splits completion.splits)
  qed
qed

text \<open>
  C12. Reading back the decimal digits that \<open>{}\<close> prints for a \<open>usize\<close> gives the
  number: the printed count is the count.
\<close>

theorem parse_dec_fmt_usize: "parse_dec (fmt_usize n) = n"
proof (induction n rule: fmt_usize.induct)
  case (1 n)
  show ?case
  proof (cases "n < 10")
    case True
    then show ?thesis
      by (subst fmt_usize.simps) (simp add: parse_dec_def unat_digit)
  next
    case False
    then have "parse_dec (fmt_usize (n div 10)) = n div 10" using "1.IH" by simp
    with False show ?thesis
      by (subst fmt_usize.simps) (simp add: parse_dec_snoc unat_digit)
  qed
qed

text \<open>
  C20. The decimal rendering is a nonempty string of ASCII digits.
\<close>

theorem fmt_usize_digits: "fmt_usize n \<noteq> [] \<and> (\<forall>d \<in> set (fmt_usize n). 48 \<le> unat d \<and> unat d \<le> 57)"
proof (induction n rule: fmt_usize.induct)
  case (1 n)
  then show ?case
    by (simp only: fmt_usize.simps[of n]) (auto simp: unat_digit)
qed

theorem fmt_usize_digits_witness:
  "fmt_usize 1907 = [0x31, 0x39, 0x30, 0x37] \<and> fmt_usize 1907 \<noteq> [] \<and>
   48 \<le> unat (hd (fmt_usize 1907)) \<and> unat (hd (fmt_usize 1907)) \<le> 57"
proof -
  have e: "fmt_usize 1907 = [0x31, 0x39, 0x30, 0x37]"
    by (simp add: fmt_usize.simps)
  show ?thesis using e fmt_usize_digits[of 1907] by simp
qed

text \<open>
  C1. When the configured file reads as a valid UTF-8 string and standard output takes
  every write, \<open>run\<close> returns \<open>Ok(())\<close> and appends exactly one line to standard
  output: the report of the configured mode on the contents, followed by a line feed.
\<close>

theorem run_file_ok:
  assumes "\<not> is_stdin cfg" and "fs_read_to_string (file_path cfg) w = Inr contents"
    and "stdout_writes w = []"
  shows "run cfg w =
           (Returned (Inr ()), w\<lparr>stdout := stdout w @ report_line (command cfg) contents (file_path cfg) @ [0x0A]\<rparr>)"
  using assms run_read_ok[of cfg w contents w] by (simp add: println_writable)

theorem run_file_ok_witness:
  "\<not> is_stdin \<lparr>file_path = lit ''f'', command = Flag_Word, is_stdin = False\<rparr> \<and>
   fs_read_to_string (lit ''f'') \<lparr>fs = (\<lambda>_. Some (Regular (lit ''a b''))), stdin = [], stdout = [], stdout_writes = [], stdout_pending = []\<rparr>
     = Inr (lit ''a b'') \<and>
   stdout_writes \<lparr>fs = (\<lambda>_. Some (Regular (lit ''a b''))), stdin = [], stdout = [], stdout_writes = [], stdout_pending = []\<rparr> = [] \<and>
   run \<lparr>file_path = lit ''f'', command = Flag_Word, is_stdin = False\<rparr>
       \<lparr>fs = (\<lambda>_. Some (Regular (lit ''a b''))), stdin = [], stdout = [], stdout_writes = [], stdout_pending = []\<rparr>
     = (Returned (Inr ()), \<lparr>fs = (\<lambda>_. Some (Regular (lit ''a b''))), stdin = [],
                 stdout = report_line Flag_Word (lit ''a b'') (lit ''f'') @ [0x0A], stdout_writes = [], stdout_pending = []\<rparr>)"
proof -
  have r: "fs_read_to_string (lit ''f'') \<lparr>fs = (\<lambda>_. Some (Regular (lit ''a b''))), stdin = [], stdout = [], stdout_writes = [], stdout_pending = []\<rparr>
             = Inr (lit ''a b'')"
    by (simp add: fs_read_to_string_def append_to_string_def from_utf8_def run_utf8_validation_def)
  show ?thesis
    using r run_file_ok[of "\<lparr>file_path = lit ''f'', command = Flag_Word, is_stdin = False\<rparr>", OF _ ]
    by simp
qed

text \<open>
  C2. When reading the configured file fails, \<open>run\<close> returns that error and leaves
  the world as it was: the \<open>?\<close> returns before any count is printed.
\<close>

theorem run_file_error:
  assumes "\<not> is_stdin cfg" and "fs_read_to_string (file_path cfg) w = Inl e"
  shows "run cfg w = (Returned (Inl e), w)"
  using assms by (simp add: run_def)

theorem run_file_error_witness:
  "\<not> is_stdin \<lparr>file_path = lit ''missing'', command = Flag_Default, is_stdin = False\<rparr> \<and>
   fs_read_to_string (lit ''missing'') \<lparr>fs = (\<lambda>_. None), stdin = [], stdout = [], stdout_writes = [], stdout_pending = []\<rparr> = Inl NotFound \<and>
   run \<lparr>file_path = lit ''missing'', command = Flag_Default, is_stdin = False\<rparr>
       \<lparr>fs = (\<lambda>_. None), stdin = [], stdout = [], stdout_writes = [], stdout_pending = []\<rparr>
     = (Returned (Inl NotFound), \<lparr>fs = (\<lambda>_. None), stdin = [], stdout = [], stdout_writes = [], stdout_pending = []\<rparr>)"
proof -
  have r: "fs_read_to_string (lit ''missing'') \<lparr>fs = (\<lambda>_. None), stdin = [], stdout = [], stdout_writes = [], stdout_pending = []\<rparr> = Inl NotFound"
    by (simp add: fs_read_to_string_def)
  show ?thesis
    using r run_file_error[of "\<lparr>file_path = lit ''missing'', command = Flag_Default, is_stdin = False\<rparr>"]
    by simp
qed

text \<open>
  C13. Reading standard input: when the stream delivers valid UTF-8 in nonempty reads and
  then reaches end of file, and standard output takes every write, \<open>run\<close> consumes the
  stream up to its end of file and prints the report of the configured mode on all the
  data, labelled with the configured path.
\<close>

theorem run_stdin_ok:
  assumes "is_stdin cfg" and "stdin w = map Data cs @ Data [] # rest" and "\<forall>c\<in>set cs. c \<noteq> []"
    and "run_utf8_validation (concat cs) = Inr ()" and "stdout_writes w = []"
  shows "run cfg w =
           (Returned (Inr ()), w\<lparr>stdin := rest, stdout := stdout w @
              report_line (command cfg) (concat cs) (file_path cfg) @ [0x0A]\<rparr>)"
proof -
  have "stdin_read_to_string w = (Inr (concat cs), w\<lparr>stdin := rest\<rparr>)"
    using stdin_read_eof[OF assms(2,3)] assms(4)
    by (simp add: read_to_string_spec_def from_utf8_def)
  then show ?thesis
    using assms(1,5) run_read_ok[of cfg w "concat cs" "w\<lparr>stdin := rest\<rparr>"] by (simp add: println_writable)
qed

theorem report_line_default:
  "report_line Flag_Default contents name =
     fmt_usize (get_num_lines contents) @ [0x20, 0x20] @ fmt_usize (get_num_words contents) @
     [0x20] @ fmt_usize (get_size_in_bytes contents) @ [0x20] @ name"
  by (simp add: report_line_def)

theorem run_stdin_ok_witness:
  "is_stdin \<lparr>file_path = [], command = Flag_Line, is_stdin = True\<rparr> \<and>
   stdin \<lparr>fs = (\<lambda>_. None), stdin = [Data (lit ''x''), Data (lit ''y''), Data []], stdout = [], stdout_writes = [], stdout_pending = []\<rparr>
     = map Data [lit ''x'', lit ''y''] @ Data [] # [] \<and>
   run_utf8_validation (concat [lit ''x'', lit ''y'']) = Inr () \<and>
   run \<lparr>file_path = [], command = Flag_Line, is_stdin = True\<rparr>
       \<lparr>fs = (\<lambda>_. None), stdin = [Data (lit ''x''), Data (lit ''y''), Data []], stdout = [], stdout_writes = [], stdout_pending = []\<rparr>
     = (Returned (Inr ()), \<lparr>fs = (\<lambda>_. None), stdin = [],
                 stdout = report_line Flag_Line (lit ''xy'') [] @ [0x0A], stdout_writes = [], stdout_pending = []\<rparr>)"
proof -
  have v: "run_utf8_validation (concat [lit ''x'', lit ''y'']) = Inr ()"
    by (simp add: run_utf8_validation_def)
  show ?thesis
    using v run_stdin_ok[of "\<lparr>file_path = [], command = Flag_Line, is_stdin = True\<rparr>"
        "\<lparr>fs = (\<lambda>_. None), stdin = [Data (lit ''x''), Data (lit ''y''), Data []], stdout = [], stdout_writes = [], stdout_pending = []\<rparr>"
        "[lit ''x'', lit ''y'']" "[]"]
    by simp
qed

subsection \<open>What a run reports\<close>

lemma run_ok_contents:
  assumes "run cfg w = (Returned (Inr ()), w')" and "stdout_writes w = []"
  obtains contents where "run_utf8_validation contents = Inr ()"
    "stdout w' = stdout w @ report_line (command cfg) contents (file_path cfg) @ [0x0A]"
proof -
  obtain r w1 where rd: "(if is_stdin cfg then stdin_read_to_string w else (fs_read_to_string (file_path cfg) w, w)) = (r, w1)"
    by (rule read_input_obtain)
  note fr = read_input_cases[OF rd]
  show ?thesis
  proof (cases r)
    case (Inl e)
    then show ?thesis using assms(1) run_read_error[of cfg w e w1] rd by simp
  next
    case (Inr contents)
    then have "w' = w1\<lparr>stdout := stdout w1 @ report_line (command cfg) contents (file_path cfg) @ [0x0A]\<rparr>"
      using assms fr run_read_ok[of cfg w contents w1] rd by (simp add: println_writable)
    then show ?thesis using fr Inr by (intro that[of contents]) simp_all
  qed
qed

text \<open>
  C26. What the character mode prints is the number of scalar values in the file it read:
  whenever \<open>run\<close> succeeds with \<open>-m\<close> on a file and standard output takes every
  write, the file holds the UTF-8 encoding of a list of scalar values and the printed
  count is the length of that list (not the number of bytes), followed by the label.
\<close>

theorem run_char_mode_scalars:
  assumes "run cfg w = (Returned (Inr ()), w')" and "stdout_writes w = []"
    and "command cfg = Flag_Char" and "\<not> is_stdin cfg"
  shows "\<exists>cs. fs w (file_path cfg) = Some (Regular (encode_str cs)) \<and> (\<forall>c\<in>set cs. is_scalar c) \<and>
           stdout w' = stdout w @ fmt_usize (length cs) @ lit '' '' @ file_path cfg @ [0x0A]"
proof (cases "fs_read_to_string (file_path cfg) w")
  case (Inl e)
  with assms(1,4) show ?thesis using run_read_error[of cfg w e w] by simp
next
  case (Inr contents)
  have "w' = w\<lparr>stdout := stdout w @ report_line (command cfg) contents (file_path cfg) @ [0x0A]\<rparr>"
    using assms(1,2,4) Inr run_read_ok[of cfg w contents w] by (simp add: println_writable)
  then have o: "stdout w' = stdout w @ report_line (command cfg) contents (file_path cfg) @ [0x0A]"
    by simp
  obtain cs where "\<forall>c\<in>set cs. is_scalar c" "contents = encode_str cs" "chars contents = cs"
    using fs_read_ok[OF Inr] by (rule valid_chars)
  with o assms(3) fs_read_regular[OF Inr] show ?thesis
    by (auto simp: report_line_def get_num_char_def)
qed

theorem run_char_mode_scalars_witness:
  "run \<lparr>file_path = lit ''f'', command = Flag_Char, is_stdin = False\<rparr>
       \<lparr>fs = (\<lambda>_. Some (Regular [0x63, 0xC3, 0xA9])), stdin = [], stdout = [], stdout_writes = [], stdout_pending = []\<rparr>
     = (Returned (Inr ()), \<lparr>fs = (\<lambda>_. Some (Regular [0x63, 0xC3, 0xA9])), stdin = [],
         stdout = lit ''2 f'' @ [0x0A], stdout_writes = [], stdout_pending = []\<rparr>) \<and>
   (\<exists>cs. [0x63, 0xC3, 0xA9] = encode_str cs \<and> list_all is_scalar cs \<and>
         lit ''2 f'' @ [0x0A] = fmt_usize (length cs) @ lit '' '' @ lit ''f'' @ [0x0A])"
proof -
  have r: "run \<lparr>file_path = lit ''f'', command = Flag_Char, is_stdin = False\<rparr>
       \<lparr>fs = (\<lambda>_. Some (Regular [0x63, 0xC3, 0xA9])), stdin = [], stdout = [], stdout_writes = [], stdout_pending = []\<rparr>
     = (Returned (Inr ()), \<lparr>fs = (\<lambda>_. Some (Regular [0x63, 0xC3, 0xA9])), stdin = [],
         stdout = lit ''2 f'' @ [0x0A], stdout_writes = [], stdout_pending = []\<rparr>)"
    by (simp add: run_def fs_read_to_string_def append_to_string_def from_utf8_def run_utf8_validation_def
        utf8_char_width_def println_def report_line_def get_num_char_def fmt_usize.simps
        chars.simps utf8_first_byte_def utf8_acc_cont_byte_def Let_def)
  show ?thesis using run_char_mode_scalars[OF r] r by (simp add: list_all_iff)
qed

text \<open>
  C27. Standard input that is not valid UTF-8 makes \<open>run\<close> fail with
  \<open>InvalidData\<close>: the stream is consumed up to its end of file and nothing is printed.
\<close>

theorem run_stdin_invalid:
  assumes "is_stdin cfg" and "stdin w = map Data cs @ Data [] # rest" and "\<forall>c\<in>set cs. c \<noteq> []"
    and "run_utf8_validation (concat cs) = Inl e"
  shows "run cfg w = (Returned (Inl InvalidData), w\<lparr>stdin := rest\<rparr>)"
proof -
  have "stdin_read_to_string w = (Inl InvalidData, w\<lparr>stdin := rest\<rparr>)"
    using stdin_read_eof[OF assms(2,3)] assms(4)
    by (simp add: read_to_string_spec_def from_utf8_def)
  then show ?thesis using assms(1) run_read_error by simp
qed

theorem run_stdin_invalid_witness:
  "is_stdin \<lparr>file_path = [], command = Flag_Word, is_stdin = True\<rparr> \<and>
   stdin \<lparr>fs = (\<lambda>_. None), stdin = [Data [0x61, 0xFF], Data []], stdout = [], stdout_writes = [], stdout_pending = []\<rparr>
     = map Data [[0x61, 0xFF]] @ Data [] # [] \<and>
   run_utf8_validation (concat [[0x61, 0xFF]]) = Inl \<lparr>valid_up_to = 1, error_len = Some 1\<rparr> \<and>
   run \<lparr>file_path = [], command = Flag_Word, is_stdin = True\<rparr> \<lparr>fs = (\<lambda>_. None), stdin = [Data [0x61, 0xFF], Data []], stdout = [], stdout_writes = [], stdout_pending = []\<rparr>
     = (Returned (Inl InvalidData), \<lparr>fs = (\<lambda>_. None), stdin = [], stdout = [], stdout_writes = [], stdout_pending = []\<rparr>)"
proof -
  have v: "run_utf8_validation (concat [[0x61, 0xFF]]) = Inl \<lparr>valid_up_to = 1, error_len = Some 1\<rparr>"
    by (simp add: run_utf8_validation_def utf8_char_width_def utf8_err_def)
  show ?thesis
    using run_stdin_invalid[of "\<lparr>file_path = [], command = Flag_Word, is_stdin = True\<rparr>"
        "\<lparr>fs = (\<lambda>_. None), stdin = [Data [0x61, 0xFF], Data []], stdout = [], stdout_writes = [], stdout_pending = []\<rparr>"
        "[[0x61, 0xFF]]" "[]"] v
    by simp
qed

text \<open>
  C30. A read of standard input that fails part-way (with an error other than
  \<open>Interrupted\<close>, which is retried, and \<open>EBADF\<close>) makes \<open>run\<close> return that error and
  print nothing; the error wins over \<open>InvalidData\<close> even when the bytes read before it
  are not UTF-8, and the stream is consumed up to the failed read.
\<close>

theorem run_stdin_read_error:
  assumes "is_stdin cfg" and "stdin w = map Data cs @ Failed e # rest" and "\<forall>c\<in>set cs. c \<noteq> []"
    and "e \<noteq> Interrupted" and "e \<noteq> BadFileDescriptor"
  shows "run cfg w = (Returned (Inl e), w\<lparr>stdin := rest\<rparr>)"
  using assms(1) stdin_read_fail[OF assms(2-5)] run_read_error by simp

theorem run_stdin_read_error_witness:
  "is_stdin \<lparr>file_path = [], command = Flag_Word, is_stdin = True\<rparr> \<and>
   stdin \<lparr>fs = (\<lambda>_. None), stdin = [Data [0x61, 0xC3], Failed Uncategorized, Data [0xA9]], stdout = [],
          stdout_writes = [], stdout_pending = []\<rparr> = map Data [[0x61, 0xC3]] @ Failed Uncategorized # [Data [0xA9]] \<and>
   Uncategorized \<noteq> Interrupted \<and> Uncategorized \<noteq> BadFileDescriptor \<and>
   run_utf8_validation [0x61, 0xC3] \<noteq> Inr () \<and>
   run \<lparr>file_path = [], command = Flag_Word, is_stdin = True\<rparr> \<lparr>fs = (\<lambda>_. None), stdin = [Data [0x61, 0xC3], Failed Uncategorized, Data [0xA9]], stdout = [],
          stdout_writes = [], stdout_pending = []\<rparr>
     = (Returned (Inl Uncategorized), \<lparr>fs = (\<lambda>_. None), stdin = [Data [0xA9]], stdout = [], stdout_writes = [], stdout_pending = []\<rparr>)"
proof -
  have v: "run_utf8_validation [0x61, 0xC3] \<noteq> Inr ()"
    by (simp add: run_utf8_validation_def utf8_char_width_def utf8_err_def)
  show ?thesis
    using run_stdin_read_error[of "\<lparr>file_path = [], command = Flag_Word, is_stdin = True\<rparr>"
        "\<lparr>fs = (\<lambda>_. None), stdin = [Data [0x61, 0xC3], Failed Uncategorized, Data [0xA9]], stdout = [],
          stdout_writes = [], stdout_pending = []\<rparr>" "[[0x61, 0xC3]]" Uncategorized "[Data [0xA9]]"] v
    by simp
qed

text \<open>
  C31. A closed standard input (its reads fail with \<open>EBADF\<close>) reads as empty: \<open>run\<close>
  succeeds and prints the counts of the empty string (\<open>wc -l\<close> prints \<open>"0 "\<close>). The
  specification lists a closed standard input among the \<open>IoError\<close> cases.
\<close>

theorem run_stdin_closed:
  assumes "is_stdin cfg" and "stdin w = Failed BadFileDescriptor # rest" and "stdout_writes w = []"
  shows "run cfg w =
           (Returned (Inr ()), w\<lparr>stdin := rest, stdout := stdout w @
              report_line (command cfg) [] (file_path cfg) @ [0x0A]\<rparr>)"
  using assms(1,3) stdin_read_closed[OF assms(2)] run_read_ok[of cfg w "[]" "w\<lparr>stdin := rest\<rparr>"]
  by (simp add: println_writable)

theorem run_stdin_closed_witness:
  "is_stdin \<lparr>file_path = [], command = Flag_Word, is_stdin = True\<rparr> \<and>
   stdin \<lparr>fs = (\<lambda>_. None), stdin = [Failed BadFileDescriptor], stdout = [], stdout_writes = [], stdout_pending = []\<rparr>
     = Failed BadFileDescriptor # [] \<and>
   stdout_writes \<lparr>fs = (\<lambda>_. None), stdin = [Failed BadFileDescriptor], stdout = [], stdout_writes = [], stdout_pending = []\<rparr> = [] \<and>
   run \<lparr>file_path = [], command = Flag_Word, is_stdin = True\<rparr> \<lparr>fs = (\<lambda>_. None), stdin = [Failed BadFileDescriptor], stdout = [], stdout_writes = [], stdout_pending = []\<rparr>
     = (Returned (Inr ()), \<lparr>fs = (\<lambda>_. None), stdin = [], stdout = lit ''0 '' @ [0x0A], stdout_writes = [], stdout_pending = []\<rparr>)"
proof -
  have l: "report_line Flag_Word [] [] = lit ''0 ''"
    by (simp add: report_line_def get_num_words_def split_ascii_whitespace_def split_slice_def fmt_usize.simps)
  show ?thesis
    using run_stdin_closed[of "\<lparr>file_path = [], command = Flag_Word, is_stdin = True\<rparr>"
        "\<lparr>fs = (\<lambda>_. None), stdin = [Failed BadFileDescriptor], stdout = [], stdout_writes = [], stdout_pending = []\<rparr>" "[]"] l
    by simp
qed

text \<open>
  C33. Whatever standard input, the file system and standard output do, a run writes at
  most one line: what it adds to standard output is a prefix of the report line of the
  configured mode on some contents, and it changes no file.
\<close>

theorem run_output_prefix:
  assumes "run cfg w = (c, w')"
  shows "\<exists>contents p q. stdout w' = stdout w @ p \<and>
           report_line (command cfg) contents (file_path cfg) @ [0x0A] = p @ q \<and> fs w' = fs w"
proof -
  obtain r w1 where rd: "(if is_stdin cfg then stdin_read_to_string w else (fs_read_to_string (file_path cfg) w, w)) = (r, w1)"
    by (rule read_input_obtain)
  note fr = read_input_cases[OF rd]
  show ?thesis
  proof (cases r)
    case (Inl e)
    then have "w' = w1" using assms run_read_error[of cfg w e w1] rd by simp
    then have "stdout w' = stdout w @ [] \<and>
        report_line (command cfg) [] (file_path cfg) @ [0x0A] = [] @ (report_line (command cfg) [] (file_path cfg) @ [0x0A]) \<and>
        fs w' = fs w"
      using fr by simp
    then show ?thesis by blast
  next
    case (Inr contents)
    obtain c' w2 where pl: "println (report_line (command cfg) contents (file_path cfg)) w1 = (c', w2)"
      by (cases "println (report_line (command cfg) contents (file_path cfg)) w1") auto
    then have "w' = w2" using assms run_read_ok[of cfg w contents w1] rd Inr
      by (cases c') simp_all
    moreover obtain p q where "stdout w2 = stdout w1 @ p"
      "report_line (command cfg) contents (file_path cfg) @ [0x0A] = p @ q" "fs w2 = fs w1"
      using println_prefix[OF pl] by blast
    ultimately show ?thesis using fr by auto
  qed
qed

theorem run_output_prefix_witness:
  "run \<lparr>file_path = lit ''f'', command = Flag_Word, is_stdin = False\<rparr>
       \<lparr>fs = (\<lambda>_. Some (Regular (lit ''a b''))), stdin = [], stdout = [],
        stdout_writes = [Accepted 1, WriteFailed BrokenPipe], stdout_pending = []\<rparr>
     = (Panicked (PrintFailed BrokenPipe), \<lparr>fs = (\<lambda>_. Some (Regular (lit ''a b''))), stdin = [],
         stdout = lit ''2'', stdout_writes = [], stdout_pending = lit '' f'' @ [0x0A]\<rparr>) \<and>
   (\<exists>contents p q. lit ''2'' = [] @ p \<and> report_line Flag_Word contents (lit ''f'') @ [0x0A] = p @ q)"
proof -
  have r: "run \<lparr>file_path = lit ''f'', command = Flag_Word, is_stdin = False\<rparr>
       \<lparr>fs = (\<lambda>_. Some (Regular (lit ''a b''))), stdin = [], stdout = [],
        stdout_writes = [Accepted 1, WriteFailed BrokenPipe], stdout_pending = []\<rparr>
     = (Panicked (PrintFailed BrokenPipe), \<lparr>fs = (\<lambda>_. Some (Regular (lit ''a b''))), stdin = [],
         stdout = lit ''2'', stdout_writes = [], stdout_pending = lit '' f'' @ [0x0A]\<rparr>)"
    by (simp add: run_def fs_read_to_string_def append_to_string_def from_utf8_def run_utf8_validation_def
        utf8_char_width_def println_def report_line_def get_num_words_def split_ascii_whitespace_def
        split_slice_def is_ascii_whitespace_def fmt_usize.simps Let_def)
  show ?thesis using run_output_prefix[OF r] r by simp
qed

end
