(* ===== verification/Wc_Main.thy ===== *)
theory Wc_Main
  imports Runner
begin

text \<open>
  The binary around the library and the specification it answers to. The binary's
  \<open>main\<close> is not in \<open>src/\<close>: \<open>wc_main\<close> models it from the specification's exit
  behaviour (exit status 0 after the report, 1 with a diagnostic on an error, 101 when
  \<open>println!\<close> panics, after the runtime's exit-time flush of standard output,
  \<open>stdout_cleanup\<close>). The specification describes the whole program as a pure
  function from the argument list and the input bytes to one output line or an error;
  \<open>wc_spec\<close> is that function, composed from the resolver contract \<open>build_spec\<close>,
  the whole-input read \<open>read_to_string_spec\<close>, and the counters and output table of
  sections 4.2 and 4.3 of the specification (\<open>line_count\<close>, \<open>word_count\<close>,
  \<open>char_count\<close>, \<open>spec_report\<close>). The lemmas here take \<open>run\<close> one layer up:
  reading refines \<open>spec_acquire\<close>, the report line is the table of the specification,
  and a run on a benign world produces exactly what \<open>wc_spec\<close> says.
\<close>

datatype diagnostic = ArgumentError build_error | ApplicationError io_error | Panic panic_payload

definition wc_main :: "rstr list \<Rightarrow> world \<Rightarrow> nat \<times> diagnostic option \<times> world" where
  "wc_main args w =
     (case build args of
        Inl err \<Rightarrow> (1, Some (ArgumentError err), w)
      | Inr config \<Rightarrow>
          (case run config w of
             (Returned (Inl e), w') \<Rightarrow> (1, Some (ApplicationError e), w')
           | (Returned (Inr _), w') \<Rightarrow> (0, None, w')
           | (Panicked p, w') \<Rightarrow> (101, Some (Panic p), stdout_cleanup w')))"

subsection \<open>The specification as a function\<close>

text \<open>
  The counters of section 4.2: a line is ended by a line feed and a last unterminated
  line counts; a word is a maximal run of bytes that are not whitespace, where whitespace
  is the specification's list (space, tab, line feed, carriage return, form feed and
  vertical tab), counted by \<open>word_runs\<close>; the character count is the number of Unicode
  scalar values, and in a UTF-8 string each scalar's encoding has exactly one byte that
  is not a continuation byte (\<open>10xxxxxx\<close>).
\<close>

definition line_count :: "rstr \<Rightarrow> nat" where
  "line_count s = count_list s 0x0A + (if s \<noteq> [] \<and> last s \<noteq> 0x0A then 1 else 0)"

definition spec_whitespace :: "byte \<Rightarrow> bool" where
  "spec_whitespace b \<longleftrightarrow> b = 0x20 \<or> b = 0x09 \<or> b = 0x0A \<or> b = 0x0D \<or> b = 0x0C \<or> b = 0x0B"

fun word_runs :: "(byte \<Rightarrow> bool) \<Rightarrow> bool \<Rightarrow> rstr \<Rightarrow> nat" where
  "word_runs ws in_word [] = 0"
| "word_runs ws in_word (b # bs) =
     (if ws b then word_runs ws False bs else (if in_word then 0 else 1) + word_runs ws True bs)"

definition word_count :: "rstr \<Rightarrow> nat" where
  "word_count s = word_runs spec_whitespace False s"

definition char_count :: "rstr \<Rightarrow> nat" where
  "char_count s = length (filter (\<lambda>b. unat b < 128 \<or> 192 \<le> unat b) s)"

definition spec_report :: "flag \<Rightarrow> rstr \<Rightarrow> rstr \<Rightarrow> rstr" where
  "spec_report mode s label =
     (case mode of
        Flag_Size \<Rightarrow> fmt_usize (length s) @ lit '' '' @ label
      | Flag_Line \<Rightarrow> fmt_usize (line_count s) @ lit '' '' @ label
      | Flag_Word \<Rightarrow> fmt_usize (word_count s) @ lit '' '' @ label
      | Flag_Char \<Rightarrow> fmt_usize (char_count s) @ lit '' '' @ label
      | Flag_Default \<Rightarrow>
          fmt_usize (line_count s) @ lit ''  '' @ fmt_usize (word_count s) @ lit '' '' @
          fmt_usize (length s) @ lit '' '' @ label)"

definition spec_acquire :: "config \<Rightarrow> (rstr \<Rightarrow> fs_entry option) \<Rightarrow> rstr \<Rightarrow> io_error + rstr" where
  "spec_acquire cfg files input =
     (if is_stdin cfg then read_to_string_spec input
      else case files (file_path cfg) of
        None \<Rightarrow> Inl NotFound
      | Some Unreadable \<Rightarrow> Inl PermissionDenied
      | Some Directory \<Rightarrow> Inl IsADirectory
      | Some (Regular contents) \<Rightarrow> read_to_string_spec contents)"

definition wc_spec :: "rstr list \<Rightarrow> (rstr \<Rightarrow> fs_entry option) \<Rightarrow> rstr \<Rightarrow> diagnostic + rstr" where
  "wc_spec args files input =
     (case build_spec args of
        Inl e \<Rightarrow> Inl (ArgumentError e)
      | Inr cfg \<Rightarrow>
          (case spec_acquire cfg files input of
             Inl e \<Rightarrow> Inl (ApplicationError e)
           | Inr s \<Rightarrow> Inr (spec_report (command cfg) s (file_path cfg))))"

subsection \<open>Lemmas\<close>

lemma char_count_valid:
  assumes "run_utf8_validation s = Inr ()"
  shows "length (chars s) = char_count s"
proof -
  obtain cs where "s = encode_str cs" "chars s = cs"
    using assms by (rule valid_chars)
  moreover have "(\<lambda>b::byte. unat b < 128 \<or> 192 \<le> unat b) = (\<lambda>b. \<not> utf8_is_cont_byte b)"
    by (auto simp: utf8_is_cont_byte_unat)
  then have "char_count s = count_chars s"
    by (simp add: char_count_def count_chars_def)
  ultimately show ?thesis by (simp add: count_chars_encode_str)
qed

lemma count_words_scan_runs: "count_words_scan b s = word_runs is_ascii_whitespace b s"
  by (induction s arbitrary: b) simp_all

lemma word_runs_cong: "\<forall>x\<in>set s. p x = q x \<Longrightarrow> word_runs p b s = word_runs q b s"
  by (induction s arbitrary: b) simp_all

lemma word_runs_map: "word_runs p b (map f s) = word_runs (p \<circ> f) b s"
  by (induction s arbitrary: b) simp_all

lemma get_num_words_runs: "get_num_words s = word_runs is_ascii_whitespace False s"
  using split_slice_acc_words[where cur = "[]" and s = s]
  by (simp add: get_num_words_def split_ascii_whitespace_def split_slice_def count_words_scan_runs)

lemma spec_whitespace_ascii: "b \<noteq> 0x0B \<Longrightarrow> spec_whitespace b = is_ascii_whitespace b"
  by (auto simp: spec_whitespace_def is_ascii_whitespace_def)

lemma get_num_words_spec:
  assumes "0x0B \<notin> set s"
  shows "get_num_words s = word_count s"
proof -
  have "\<forall>x\<in>set s. is_ascii_whitespace x = spec_whitespace x"
    using assms spec_whitespace_ascii by metis
  then show ?thesis by (simp add: get_num_words_runs word_count_def word_runs_cong)
qed

lemma report_line_spec:
  assumes "run_utf8_validation s = Inr ()" and "0x0B \<notin> set s"
  shows "report_line mode s label = spec_report mode s label"
proof -
  have "get_num_words s = word_count s"
    using assms(2) by (rule get_num_words_spec)
  moreover have "get_num_lines s = line_count s"
    using split_inclusive_acc_length[where sep = "0x0A" and cur = "[]" and s = s]
    by (simp add: get_num_lines_def lines_def split_inclusive_def line_count_def)
  moreover have "get_num_char s = char_count s"
    using char_count_valid[OF assms(1)] by (simp add: get_num_char_def)
  ultimately show ?thesis
    by (simp add: report_line_def spec_report_def get_size_in_bytes_def Let_def)
qed

lemma fs_read_spec:
  "path \<noteq> [] \<Longrightarrow> fs_read_to_string path w =
     (case fs w path of
        None \<Rightarrow> Inl NotFound
      | Some Unreadable \<Rightarrow> Inl PermissionDenied
      | Some Directory \<Rightarrow> Inl IsADirectory
      | Some (Regular contents) \<Rightarrow> read_to_string_spec contents)"
  by (auto simp: fs_read_to_string_def append_to_string_Inl read_to_string_spec_def
      append_to_string_def split: option.splits fs_entry.splits sum.splits)

lemma stdin_read_benign:
  assumes "list_all benign (stdin w)"
  obtains rest where "stdin_read_to_string w = (read_to_string_spec (delivered (stdin w)), w\<lparr>stdin := rest\<rparr>)"
proof -
  obtain r bytes rest where e: "read_to_end (stdin w) [] = (r, bytes, rest)"
    by (cases "read_to_end (stdin w) []") auto
  with assms have "r = Inr ()" "bytes = delivered (stdin w)"
    using read_to_end_benign[of "stdin w" "[]"] by simp_all
  with e show ?thesis
    by (intro that[of rest]) (simp add: stdin_read_to_string_def handle_ebadf_def append_to_string_Inr)
qed

lemma read_input_spec:
  assumes "list_all benign (stdin w)" and "is_stdin cfg \<or> file_path cfg \<noteq> []"
  obtains w1 where
    "(if is_stdin cfg then stdin_read_to_string w else (fs_read_to_string (file_path cfg) w, w))
       = (spec_acquire cfg (fs w) (delivered (stdin w)), w1)"
    "fs w1 = fs w" "stdout w1 = stdout w" "stdout_writes w1 = stdout_writes w"
proof (cases "is_stdin cfg")
  case True
  obtain rest where "stdin_read_to_string w = (read_to_string_spec (delivered (stdin w)), w\<lparr>stdin := rest\<rparr>)"
    using assms(1) by (rule stdin_read_benign)
  with True show ?thesis by (intro that[of "w\<lparr>stdin := rest\<rparr>"]) (simp_all add: spec_acquire_def)
next
  case False
  with assms(2) show ?thesis
    by (intro that[of w]) (simp_all add: spec_acquire_def fs_read_spec)
qed

lemma spec_acquire_source:
  "spec_acquire cfg files input = Inr s \<Longrightarrow>
     (is_stdin cfg \<and> s = input) \<or> (\<not> is_stdin cfg \<and> files (file_path cfg) = Some (Regular s))"
  by (auto simp: spec_acquire_def read_to_string_spec_def from_utf8_def
      split: if_splits option.splits fs_entry.splits sum.splits)

lemma spec_acquire_no_vt:
  assumes "spec_acquire cfg files input = Inr s" and "0x0B \<notin> set input"
    and "\<forall>p c. files p = Some (Regular c) \<longrightarrow> 0x0B \<notin> set c"
  shows "0x0B \<notin> set s"
  using spec_acquire_source[OF assms(1)] assms(2,3) by blast

lemma run_spec:
  assumes "list_all benign (stdin w)" and "stdout_writes w = []"
    and "is_stdin cfg \<or> file_path cfg \<noteq> []"
    and "\<And>s. spec_acquire cfg (fs w) (delivered (stdin w)) = Inr s \<Longrightarrow> 0x0B \<notin> set s"
  shows "case run cfg w of (c, w') \<Rightarrow> fs w' = fs w \<and>
           (case spec_acquire cfg (fs w) (delivered (stdin w)) of
              Inl e \<Rightarrow> c = Returned (Inl e) \<and> stdout w' = stdout w
            | Inr s \<Rightarrow> c = Returned (Inr ()) \<and>
                       stdout w' = stdout w @ spec_report (command cfg) s (file_path cfg) @ [0x0A])"
proof -
  obtain w1 where rd:
    "(if is_stdin cfg then stdin_read_to_string w else (fs_read_to_string (file_path cfg) w, w))
       = (spec_acquire cfg (fs w) (delivered (stdin w)), w1)"
    and fr: "fs w1 = fs w" "stdout w1 = stdout w" "stdout_writes w1 = stdout_writes w"
    using assms(1,3) by (rule read_input_spec)
  show ?thesis
  proof (cases "spec_acquire cfg (fs w) (delivered (stdin w))")
    case (Inl e)
    with rd fr show ?thesis by (simp add: run_read_error)
  next
    case (Inr s)
    have "run_utf8_validation s = Inr ()"
      using read_input_cases[OF rd] Inr by simp
    with Inr rd fr assms(2,4) show ?thesis
      by (simp add: run_read_ok println_writable report_line_spec)
  qed
qed

lemma run_print_fail:
  assumes "list_all benign (stdin w)" and "is_stdin cfg \<or> file_path cfg \<noteq> []"
    and "spec_acquire cfg (fs w) (delivered (stdin w)) = Inr s" and "0x0B \<notin> set s"
    and "stdout_writes w = map Accepted ns @ WriteFailed e # rest"
    and "list_all (\<lambda>n. 0 < n) ns" and "sum_list ns \<le> length (spec_report (command cfg) s (file_path cfg))"
    and "e \<noteq> Interrupted" and "e \<noteq> BadFileDescriptor"
  shows "case run cfg w of (c, w') \<Rightarrow> c = Panicked (PrintFailed e) \<and> fs w' = fs w \<and>
           stdout w' = stdout w @ take (sum_list ns) (spec_report (command cfg) s (file_path cfg) @ [0x0A]) \<and>
           stdout_writes w' = rest \<and>
           stdout_pending w' = drop (sum_list ns) (spec_report (command cfg) s (file_path cfg) @ [0x0A])"
proof -
  obtain w1 where rd:
    "(if is_stdin cfg then stdin_read_to_string w else (fs_read_to_string (file_path cfg) w, w))
       = (spec_acquire cfg (fs w) (delivered (stdin w)), w1)"
    and fr: "fs w1 = fs w" "stdout w1 = stdout w" "stdout_writes w1 = stdout_writes w"
    using assms(1,2) by (rule read_input_spec)
  have "run_utf8_validation s = Inr ()"
    using read_input_cases[OF rd] assms(3) by simp
  then have "report_line (command cfg) s (file_path cfg) = spec_report (command cfg) s (file_path cfg)"
    using assms(4) by (rule report_line_spec)
  moreover have "stdout_writes w1 = map Accepted ns @ WriteFailed e # rest"
    using fr assms(5) by simp
  ultimately show ?thesis
    using rd fr assms(3,6-9) run_read_ok[of cfg w s w1]
      println_fail[of w1 ns e rest "spec_report (command cfg) s (file_path cfg)"]
    by simp
qed

text \<open>
  C16. The word count departs from section 4.2 of the specification exactly on the
  vertical tab: for every input, \<open>get_num_words\<close> is the specification's word count of
  the input in which each vertical tab (0x0B) is read as a letter. \<open>u8::is_ascii_whitespace\<close>
  leaves out the vertical tab that the specification lists as whitespace, so \<open>"a\x0Bb"\<close>
  is one word for the program and two for the specification.
\<close>

theorem get_num_words_vertical_tab:
  "get_num_words s = word_count (map (\<lambda>b. if b = 0x0B then 0x61 else b) s)"
proof -
  have "spec_whitespace \<circ> (\<lambda>b. if b = 0x0B then 0x61 else b) = is_ascii_whitespace"
    by (rule ext) (auto simp: spec_whitespace_def is_ascii_whitespace_def)
  then show ?thesis by (simp add: get_num_words_runs word_count_def word_runs_map)
qed

end
