(* ===== verification/Tests.thy ===== *)
theory Tests
  imports Counters
begin

text \<open>
  The unit tests of \<open>src/src/lib.rs\<close> (module \<open>tests\<close>), one boolean definition per
  \<open>#[test]\<close> function: the fixture bound to \<open>contents\<close> and the \<open>assert_eq!\<close> on the
  counter it exercises. The Rust literal \<open>"\test\n        lorem\n        ipsum"\<close> of
  \<open>test_get_num_lines\<close> starts with the escape \<open>\t\<close> (a tab followed by \<open>est\<close>) and
  keeps the indentation of the source lines.
\<close>

definition test_get_size_empty :: bool where
  "test_get_size_empty \<longleftrightarrow> (let contents = lit '''' in 0 = get_size_in_bytes contents)"

definition test_get_size :: bool where
  "test_get_size \<longleftrightarrow> (let contents = lit ''test'' in 4 = get_size_in_bytes contents)"

definition test_get_num_lines :: bool where
  "test_get_num_lines \<longleftrightarrow>
     (let contents = [0x09] @ lit ''est'' @ [0x0A] @ lit ''        lorem'' @ [0x0A] @
                     lit ''        ipsum''
      in 3 = get_num_lines contents)"

definition test_get_num_words :: bool where
  "test_get_num_words \<longleftrightarrow> (let contents = lit ''lorem ipsum dolor'' in 3 = get_num_words contents)"

text \<open>
  The module as the test harness runs it (\<open>cargo test\<close> under \<open>#[cfg(test)]\<close>,
  with the parent's items in scope through \<open>use super::*\<close>): it passes when every test
  function of it does.
\<close>

definition crate_tests :: bool where
  "crate_tests \<longleftrightarrow> test_get_size_empty \<and> test_get_size \<and> test_get_num_lines \<and> test_get_num_words"

lemmas counter_eval_simps = get_size_in_bytes_def get_num_lines_def lines_def split_inclusive_def
  lines_map_def strip_suffix_def get_num_words_def split_ascii_whitespace_def split_slice_def
  is_ascii_whitespace_def

text \<open>
  The test module of the crate passes on the model: the empty string has 0 bytes,
  \<open>"test"\<close> has 4, the indented three-line fixture has 3 lines, and
  \<open>"lorem ipsum dolor"\<close> has 3 words.
\<close>

theorem unit_tests_pass: "crate_tests"
  unfolding crate_tests_def
proof (intro conjI)
  show "test_get_size_empty" by (simp add: test_get_size_empty_def counter_eval_simps)
  show "test_get_size" by (simp add: test_get_size_def counter_eval_simps)
  show "test_get_num_lines" by (simp add: test_get_num_lines_def counter_eval_simps)
  show "test_get_num_words" by (simp add: test_get_num_words_def counter_eval_simps)
qed

end
