(* ===== verification/Spec2Isabelle.thy ===== *)
theory Spec2Isabelle
  imports Wc_Main Tests
begin

text \<open>
  A verification development of the word-count utility \<open>src/src/lib.rs\<close> (a \<open>wc\<close>
  clone): \<open>Config::build\<close> turns the command line into a configuration, \<open>run\<close> reads
  a file or standard input and prints one count line, and four counters measure the
  string. The library models the program as it is written, one theory per part:

  \<^item> \<open>WC_Prelude\<close>: the types of the model (a Rust \<open>&str\<close>/\<open>String\<close> is
    \<open>rstr\<close>, its UTF-8 bytes as \<open>8 word\<close>s; a Rust \<open>char\<close> is \<open>char32\<close>, a
    \<open>32 word\<close>), string literals (\<open>lit\<close>), and the shared facts on bits of words
    (\<open>bit_below\<close>, \<open>unat_tag_field\<close>, \<open>sint_byte\<close>, collection \<open>utf8_bits\<close>).
  \<^item> \<open>Utf8\<close>: the parts of the standard library the counters rest on, translated from
    core: \<open>encode_utf8_raw\<close> and \<open>len_utf8\<close> (the representation of a \<open>String\<close>,
    \<open>encode_str\<close>), \<open>next_code_point\<close> and \<open>chars\<close> (\<open>str::chars\<close>),
    \<open>utf8_is_cont_byte\<close> and \<open>count_chars\<close> (the count \<open>Chars::count\<close> is
    specialised to). The lemmas prove the codec by bit-level reasoning on words: the
    decoder inverts the encoder width by width (\<open>next_code_point_encode\<close>,
    \<open>chars_encode_str\<close>), and every encoded scalar has exactly one leading byte
    (\<open>count_chars_encode_str\<close>).
  \<^item> \<open>Utf8_Valid\<close>: \<open>run_utf8_validation\<close> and \<open>from_utf8\<close> (the check of
    \<open>read_to_string\<close>, with \<open>Utf8Error\<close> as the record \<open>utf8_error\<close>). The
    proofs read bytes as naturals (\<open>byte_unat_conv\<close>) and code points as base-64
    digits: validation steps over exactly the encoding of one scalar
    (\<open>valid_encode_char\<close>), and a byte sequence that passes one step is such an
    encoding (\<open>valid_step_decode\<close>). Hence validation accepts exactly the encodings of
    scalar lists, every \<open>String\<close> round-trips through \<open>chars\<close>, \<open>Chars::count\<close>
    agrees with the decoder on it, and each step of \<open>chars\<close> on a valid string
    consumes exactly the encoding of one scalar and leaves a valid string
    (\<open>next_code_point_valid\<close>). The fields of \<open>Utf8Error\<close> are computed as the
    source computes them, but \<open>read_to_string\<close> only asks whether there is an error,
    so no property is stated about them.
  \<^item> \<open>Counters\<close>: \<open>get_size_in_bytes\<close>, \<open>get_num_lines\<close>, \<open>get_num_words\<close>,
    \<open>get_num_char\<close> (lib.rs lines 102--116) over models of \<open>str::lines\<close>
    (\<open>split_inclusive\<close>, \<open>lines_map\<close>), \<open><[u8]>::split\<close> (\<open>split_slice\<close>)
    and \<open>split_ascii_whitespace\<close>. Lemmas: the closed form of the line count, the word
    count against the one-pass scanner \<open>count_words_scan\<close>, round trips of
    \<open>lines\<close> and \<open>split_ascii_whitespace\<close>, the character count of an encoded
    scalar list, and the bound of every count by the byte length.
  \<^item> \<open>Config\<close>: \<open>Flag\<close> (datatype \<open>flag\<close>), \<open>Flag::from_str\<close>
    (\<open>flag_from_str\<close>), \<open>Config\<close> (record \<open>config\<close>) and \<open>Config::build\<close>
    (\<open>build\<close>, errors as \<open>build_error + config\<close>), lib.rs lines 5--77, with the
    contract of the specification as \<open>build_spec\<close>. Lemmas: the refinement of the
    contract, the exact error and success cases, and the exact set of argument lists on
    which \<open>build\<close> and \<open>build_spec\<close> differ (an empty first user argument).
  \<^item> \<open>Stdio\<close>: the standard-library I/O \<open>run\<close> calls, over a \<open>world\<close> record
    (file system; standard input as the results of its successive \<open>read\<close> calls; the
    bytes standard output received, the results of its \<open>write\<close> calls, and the bytes
    of a failed print that the line buffer of \<open>Stdout\<close> still holds). The read
    loop \<open>read_to_end\<close> (retry on \<open>Interrupted\<close>, stop at end of file or an error),
    \<open>handle_ebadf\<close> (a closed descriptor reads as end of file and writes as success),
    the UTF-8 guard \<open>append_to_string\<close> (an I/O error wins over \<open>InvalidData\<close>),
    \<open>stdin_read_to_string\<close> and \<open>fs_read_to_string\<close>; \<open>write_all\<close> (partial
    writes, \<open>WriteZero\<close>), \<open>println\<close>, which flushes the line buffer and panics when
    that fails, leaving the rest of the line in the buffer, and \<open>stdout_cleanup\<close>,
    the runtime's flush of that buffer at exit. Lemmas:
    the reading of a stream refines the specification's whole-input read
    (\<open>read_to_string_spec\<close> of the data \<open>delivered\<close>), interrupted reads are
    invisible, what \<open>println\<close> writes is a prefix of its line, and exactly what it writes
    and keeps when the writes take some bytes and then fail (\<open>println_fail\<close>).
  \<^item> \<open>Runner\<close>: \<open>run\<close> (lib.rs lines 79--100) over that world, with its result as a
    \<open>completion\<close> (the returned \<open>Result\<close>, or a panic of \<open>println!\<close>), and the
    \<open>{}\<close> formatting of a \<open>usize\<close> (\<open>fmt_usize\<close>). Lemmas: the output on success
    from a file and from a stream on standard input, the error paths that print nothing
    (a missing file, input that is not UTF-8, a read failing part-way), a closed standard
    input read as empty, the output of any run being a prefix of one report line, the
    decimal round trip, and the composition with \<open>Utf8_Valid\<close>: in \<open>-m\<close> mode the
    printed number is the number of scalar values the file encodes.
  \<^item> \<open>Wc_Main\<close>: the binary's \<open>main\<close> (not in \<open>src/\<close>; modelled from the
    specification's exit behaviour as \<open>wc_main\<close>: exit status 0, 1 on an error, 101 on
    a panic after the exit-time flush, the kind of diagnostic, the world) and the
    specification's view of the whole
    program as a pure function (\<open>wc_spec\<close>): the resolver contract \<open>build_spec\<close>,
    the whole-input read \<open>spec_acquire\<close>, and the output table of section 4.3 over
    the counters of section 4.2 (\<open>spec_report\<close>, \<open>line_count\<close>,
    \<open>word_count\<close> over the specification's whitespace \<open>spec_whitespace\<close>, which
    includes the vertical tab, and \<open>char_count\<close>, the number of bytes that begin a
    UTF-8 sequence). Lemmas, one per layer: reading refines \<open>spec_acquire\<close>
    (\<open>read_input_spec\<close>), on a valid string without vertical tab \<open>report_line\<close> is
    the table (\<open>report_line_spec\<close>, through the decoder and validator of
    \<open>Utf8_Valid\<close>), \<open>run\<close> on a benign world does what the specification says
    (\<open>run_spec\<close>) and on a failing standard output what \<open>run_print_fail\<close> says; and
    the code's word count is the specification's on the input with each vertical tab
    read as a letter.
  \<^item> \<open>Tests\<close>: the module \<open>tests\<close> of lib.rs lines 118--151 as
    \<open>crate_tests\<close>, with its four \<open>#[test]\<close> functions one boolean definition
    each, evaluated to pass.
  \<^item> this theory: the properties of whole invocations. \<open>wc_main\<close> refines
    \<open>wc_spec\<close> on every argument list without an empty argument, every standard input
    that fails only with \<open>Interrupted\<close>, every standard output that takes its writes,
    and every input without vertical tab; no output when the exit status is 1; an
    invocation on valid standard input always ending with exit status 0 and exactly one
    printed line; and, when standard output fails part-way, the exit status 101 with
    the bytes written before the failure and by the flush at exit.

  Modelling choices. Counts are \<open>nat\<close>: \<open>counts_bounded\<close> shows each is at most the
  byte length, which a \<open>usize\<close> holds, so no count wraps. No loop needs fuel: every
  recursion consumes its input list (\<open>chars\<close> by a \<open>measure length\<close> termination
  proof). The model of \<open>next_code_point\<close> answers \<open>None\<close> on a truncated sequence,
  where the source's \<open>unwrap_unchecked\<close> is undefined behaviour that a valid \<open>str\<close>
  never reaches. I/O errors are kept as kinds (\<open>io_error\<close>). The environment is
  given by finite lists of read and write results, after which every read reports end
  of file and every write succeeds, so the read and write loops are structural
  recursions: a reader that is interrupted for ever is outside the model. A regular
  file delivers its contents in one read; the split of a file into reads does not change
  what \<open>read_to_end\<close> returns on a benign stream (\<open>read_to_end_chunks\<close>). The
  pieces \<open>println!\<close> formats go into the \<open>LineWriter\<close> buffer of \<open>Stdout\<close>, and
  the final line feed flushes the buffer with \<open>flush_buf\<close>, which is \<open>write_all\<close>
  of the line; on an error the unwritten rest stays in the buffer, and at exit
  \<open>std::rt::cleanup\<close> drops the buffer, whose \<open>Drop\<close> writes the rest and ignores
  errors (\<open>stdout_cleanup\<close>). This holds for a line shorter than the buffer's
  capacity of 1024 bytes; a longer line (a long path) goes partly straight to the
  descriptor, so its split into writes differs while the bytes written stay a prefix of
  the line. The program prints at most once, so the buffer is empty when \<open>println\<close>
  starts, and \<open>wc_main\<close> flushes it only after a panic, the one path on which it can
  hold anything.
  The ASCII fast paths of \<open>run_utf8_validation\<close> and \<open>count_chars\<close> (word-at-a-time
  blocks) are modelled by the per-byte result they compute.

  The refinement of \<open>wc_spec\<close> excludes an empty argument, on which the source and the
  specification's resolver differ (\<open>build_spec_divergence\<close>); an input holding a
  vertical tab, which the specification counts as whitespace and the source does not
  (\<open>get_num_words_vertical_tab\<close>); and a standard input or output that fails, where
  the source does what \<open>run_stdin_read_error\<close>, \<open>run_stdin_closed\<close> and
  \<open>main_print_failure\<close> show and the specification says nothing precise.

  Not modelled: the texts written to standard error. The binary's \<open>main\<close> is not in
  the repository and the specification names no message, only that a diagnostic goes to
  standard error, so \<open>wc_main\<close> keeps the diagnostic as a value (its kind and the
  error it carries) and not as text; the \<open>Display\<close> texts of the standard library's
  errors depend on the platform. Also not modelled: signals, and the \<open>use\<close> lines of
  lib.rs (lines 1--3), which hold no behaviour.
\<close>

definition notes_world :: world where
  "notes_world = \<lparr>fs = (\<lambda>p. if p = lit ''notes.txt''
                            then Some (Regular (lit ''lorem ipsum dolor'' @ [0x0A])) else None),
                  stdin = [], stdout = [], stdout_writes = [], stdout_pending = []\<rparr>"

lemmas run_eval_simps = build_def flag_from_str_def run_def fs_read_to_string_def
  stdin_read_to_string_def append_to_string_def handle_ebadf_def from_utf8_def run_utf8_validation_def utf8_char_width_def
  report_line_def println_def get_size_in_bytes_def get_num_lines_def lines_def
  split_inclusive_def lines_map_def strip_suffix_def get_num_words_def
  split_ascii_whitespace_def split_slice_def is_ascii_whitespace_def get_num_char_def
  fmt_usize.simps

text \<open>
  C18. An invocation that fails with an error prints nothing on standard output and
  changes no file: whenever the exit status is 1, standard output is as before.
\<close>

theorem main_failure_no_output:
  assumes "wc_main args w = (1, d, w')"
  shows "stdout w' = stdout w \<and> fs w' = fs w"
proof (cases "build args")
  case (Inl err)
  with assms show ?thesis by (simp add: wc_main_def)
next
  case (Inr cfg)
  then show ?thesis
  proof (cases "run cfg w")
    case (Pair r w1)
    with Inr assms show ?thesis
      by (cases r) (auto simp: wc_main_def dest: run_error_frame split: sum.splits)
  qed
qed

theorem main_failure_no_output_witness:
  "wc_main [lit ''wc'', lit ''missing''] notes_world = (1, Some (ApplicationError NotFound), notes_world) \<and>
   stdout notes_world = stdout notes_world \<and> fs notes_world = fs notes_world"
proof -
  have e: "wc_main [lit ''wc'', lit ''missing''] notes_world = (1, Some (ApplicationError NotFound), notes_world)"
    by (simp add: wc_main_def notes_world_def run_eval_simps)
  show ?thesis using main_failure_no_output[OF e] e by simp
qed

text \<open>
  C19. The program is the pure function the specification describes, up to the vertical
  tab of C16: on arguments none of which is empty, a standard input whose reads fail, if
  at all, only with \<open>Interrupted\<close>, and a standard output that takes every write, when
  neither the data standard input delivers nor any regular file holds a vertical tab,
  \<open>wc_main\<close> leaves the file system as it was and either exits 1 with the diagnostic
  \<open>wc_spec\<close> gives and prints nothing, or exits 0 and prints exactly the line
  \<open>wc_spec\<close> gives (the table of section 4.3 over the counters of section 4.2),
  computed from the argument list, the files and the bytes standard input delivers
  before its end.
\<close>

theorem wc_main_refines_spec:
  assumes "[] \<notin> set args" and "list_all benign (stdin w)" and "stdout_writes w = []"
    and "0x0B \<notin> set (delivered (stdin w))" and "\<forall>p c. fs w p = Some (Regular c) \<longrightarrow> 0x0B \<notin> set c"
  shows "case wc_main args w of (code, d, w') \<Rightarrow> fs w' = fs w \<and>
           (case wc_spec args (fs w) (delivered (stdin w)) of
              Inl err \<Rightarrow> code = 1 \<and> d = Some err \<and> stdout w' = stdout w
            | Inr line \<Rightarrow> code = 0 \<and> d = None \<and> stdout w' = stdout w @ line @ [0x0A])"
proof (cases "build_spec args")
  case (Inl e)
  with assms(1) show ?thesis by (simp add: wc_main_def wc_spec_def build_agrees_spec)
next
  case (Inr cfg)
  have p: "is_stdin cfg \<or> file_path cfg \<noteq> []"
    using build_spec_file_path[OF assms(1) Inr] by blast
  have v: "\<And>s. spec_acquire cfg (fs w) (delivered (stdin w)) = Inr s \<Longrightarrow> 0x0B \<notin> set s"
    using assms(4,5) spec_acquire_no_vt by blast
  from run_spec[OF assms(2,3) p v] Inr assms(1) show ?thesis
    by (auto simp: wc_main_def wc_spec_def build_agrees_spec
        split: prod.splits sum.splits completion.splits)
qed

theorem wc_main_refines_spec_witness:
  "(case wc_main [lit ''wc'', lit ''-m'']
          \<lparr>fs = (\<lambda>_. None), stdin = [Data [0xC3], Failed Interrupted, Data [0xA9, 0x0A], Data []],
           stdout = [], stdout_writes = [], stdout_pending = []\<rparr> of
     (code, d, w') \<Rightarrow> code = 0 \<and> d = None \<and> stdout w' = lit ''2 '' @ [0x0A]) \<and>
   (case wc_main [lit ''wc'', lit ''notes.txt''] notes_world of
     (code, d, w') \<Rightarrow> code = 0 \<and> d = None \<and> stdout w' = lit ''1  3 18 notes.txt'' @ [0x0A])"
proof -
  let ?w = "\<lparr>fs = (\<lambda>_. None), stdin = [Data [0xC3], Failed Interrupted, Data [0xA9, 0x0A], Data []],
             stdout = [], stdout_writes = [], stdout_pending = []\<rparr>"
  have h: "[] \<notin> set [lit ''wc'', lit ''-m'']" "list_all benign (stdin ?w)" "stdout_writes ?w = []"
    "0x0B \<notin> set (delivered (stdin ?w))" "\<forall>p c. fs ?w p = Some (Regular c) \<longrightarrow> 0x0B \<notin> set c"
    by simp_all
  have s: "wc_spec [lit ''wc'', lit ''-m''] (fs ?w) (delivered (stdin ?w)) = Inr (lit ''2 '')"
    by (simp add: wc_spec_def build_spec_def spec_flag_def spec_acquire_def read_to_string_spec_def
        from_utf8_def run_utf8_validation_def utf8_char_width_def spec_report_def char_count_def
        fmt_usize.simps)
  have h2: "[] \<notin> set [lit ''wc'', lit ''notes.txt'']" "list_all benign (stdin notes_world)"
    "stdout_writes notes_world = []" "0x0B \<notin> set (delivered (stdin notes_world))"
    "\<forall>p c. fs notes_world p = Some (Regular c) \<longrightarrow> 0x0B \<notin> set c"
    by (simp_all add: notes_world_def)
  have s2: "wc_spec [lit ''wc'', lit ''notes.txt''] (fs notes_world) (delivered (stdin notes_world))
              = Inr (lit ''1  3 18 notes.txt'')"
    by (simp add: wc_spec_def build_spec_def spec_flag_def spec_acquire_def read_to_string_spec_def
        from_utf8_def run_utf8_validation_def utf8_char_width_def spec_report_def line_count_def
        word_count_def spec_whitespace_def fmt_usize.simps notes_world_def)
  have "stdout notes_world = []" by (simp add: notes_world_def)
  then show ?thesis
    using wc_main_refines_spec[OF h] s wc_main_refines_spec[OF h2] s2 by (simp split: prod.splits)
qed

text \<open>
  C28. An invocation on standard input always completes with a report: when the
  arguments select standard input, the stream delivers valid UTF-8 and reaches end of
  file, and standard output takes every write, \<open>wc_main\<close> exits 0, consumes the input
  up to its end of file and prints exactly one line (a line feed ends it and occurs
  nowhere before).
\<close>

theorem main_stdin_one_line:
  assumes "build args = Inr cfg" and "is_stdin cfg"
    and "stdin w = map Data cs @ Data [] # rest" and "\<forall>c\<in>set cs. c \<noteq> []"
    and "run_utf8_validation (concat cs) = Inr ()" and "stdout_writes w = []"
  shows "\<exists>line. wc_main args w = (0, None, w\<lparr>stdin := rest, stdout := stdout w @ line @ [0x0A]\<rparr>) \<and>
           0x0A \<notin> set line"
proof -
  have "file_path cfg = []" using build_stdin_path assms(1,2) by blast
  then have nl: "0x0A \<notin> set (report_line (command cfg) (concat cs) (file_path cfg))"
    by (simp add: report_line_no_newline)
  have "stdin_read_to_string w = (Inr (concat cs), w\<lparr>stdin := rest\<rparr>)"
    using stdin_read_eof[OF assms(3,4)] assms(5) by (simp add: read_to_string_spec_def from_utf8_def)
  then have "run cfg w = (Returned (Inr ()), w\<lparr>stdin := rest, stdout := stdout w @
               report_line (command cfg) (concat cs) (file_path cfg) @ [0x0A]\<rparr>)"
    using assms(2,6) run_read_ok[of cfg w "concat cs" "w\<lparr>stdin := rest\<rparr>"] by (simp add: println_writable)
  with nl assms(1) show ?thesis by (auto simp: wc_main_def)
qed

theorem main_stdin_one_line_witness:
  "build [lit ''wc'', lit ''-w''] = Inr \<lparr>file_path = [], command = Flag_Word, is_stdin = True\<rparr> \<and>
   is_stdin \<lparr>file_path = [], command = Flag_Word, is_stdin = True\<rparr> \<and>
   run_utf8_validation (concat [lit ''a b'']) = Inr () \<and>
   (\<exists>line. wc_main [lit ''wc'', lit ''-w'']
        \<lparr>fs = (\<lambda>_. None), stdin = [Data (lit ''a b''), Data []], stdout = [], stdout_writes = [], stdout_pending = []\<rparr>
      = (0, None, \<lparr>fs = (\<lambda>_. None), stdin = [], stdout = line @ [0x0A], stdout_writes = [], stdout_pending = []\<rparr>) \<and>
      0x0A \<notin> set line)"
proof -
  have b: "build [lit ''wc'', lit ''-w''] = Inr \<lparr>file_path = [], command = Flag_Word, is_stdin = True\<rparr>"
    by (simp add: build_def flag_from_str_def)
  have v: "run_utf8_validation (concat [lit ''a b'']) = Inr ()"
    by (simp add: run_utf8_validation_def)
  show ?thesis
    using main_stdin_one_line[OF b _, of
        "\<lparr>fs = (\<lambda>_. None), stdin = [Data (lit ''a b''), Data []], stdout = [], stdout_writes = [], stdout_pending = []\<rparr>"
        "[lit ''a b'']" "[]"] b v
    by simp
qed

text \<open>
  C34. When writing the report fails, the program panics, and the runtime's exit-time
  flush writes what the line buffer still holds: with a standard output whose writes
  take some bytes and then fail with an error other than \<open>Interrupted\<close> or
  \<open>EBADF\<close>, an invocation that would print the line of \<open>wc_spec\<close> (same conditions
  as C19) exits with status 101 (Rust's exit status for a panic in \<open>main\<close>) and the
  diagnostic of the failed print; standard output holds the bytes the writes took before
  the failure, followed by what the flush at exit manages to write of the rest of the
  line. The specification promises that failure is observed without a crash and that no
  partial output is ever printed.
\<close>

theorem main_print_failure:
  assumes "[] \<notin> set args" and "list_all benign (stdin w)"
    and "0x0B \<notin> set (delivered (stdin w))" and "\<forall>p c. fs w p = Some (Regular c) \<longrightarrow> 0x0B \<notin> set c"
    and "wc_spec args (fs w) (delivered (stdin w)) = Inr line"
    and "stdout_writes w = map Accepted ns @ WriteFailed e # rest"
    and "list_all (\<lambda>n. 0 < n) ns" and "sum_list ns \<le> length line"
    and "e \<noteq> Interrupted" and "e \<noteq> BadFileDescriptor"
  shows "case wc_main args w of (code, d, w') \<Rightarrow>
           code = 101 \<and> d = Some (Panic (PrintFailed e)) \<and> fs w' = fs w \<and>
           stdout w' = stdout w @ take (sum_list ns) (line @ [0x0A]) @
                       fst (snd (write_all (drop (sum_list ns) (line @ [0x0A])) rest []))"
proof -
  obtain cfg s where b: "build_spec args = Inr cfg"
    and a: "spec_acquire cfg (fs w) (delivered (stdin w)) = Inr s"
    and l: "line = spec_report (command cfg) s (file_path cfg)"
    using assms(5) by (auto simp: wc_spec_def split: sum.splits)
  have "is_stdin cfg \<or> file_path cfg \<noteq> []"
    using build_spec_file_path[OF assms(1) b] by blast
  moreover have "0x0B \<notin> set s" using a assms(3,4) by (rule spec_acquire_no_vt)
  ultimately have "case run cfg w of (c, w') \<Rightarrow> c = Panicked (PrintFailed e) \<and> fs w' = fs w \<and>
           stdout w' = stdout w @ take (sum_list ns) (spec_report (command cfg) s (file_path cfg) @ [0x0A]) \<and>
           stdout_writes w' = rest \<and>
           stdout_pending w' = drop (sum_list ns) (spec_report (command cfg) s (file_path cfg) @ [0x0A])"
    using assms(2) a _ assms(6,7) _ assms(9,10) l assms(8) by (intro run_print_fail) simp_all
  with b l assms(1) show ?thesis
    by (auto simp: wc_main_def build_agrees_spec stdout_cleanup_def split: prod.splits)
qed

theorem main_print_failure_witness:
  "case wc_main [lit ''wc'', lit ''notes.txt''] (notes_world\<lparr>stdout_writes := [Accepted 3, WriteFailed BrokenPipe]\<rparr>) of
     (code, d, w') \<Rightarrow> code = 101 \<and> d = Some (Panic (PrintFailed BrokenPipe)) \<and>
       stdout w' = lit ''1  3 18 notes.txt'' @ [0x0A]"
proof -
  let ?w = "notes_world\<lparr>stdout_writes := [Accepted 3, WriteFailed BrokenPipe]\<rparr>"
  have h: "[] \<notin> set [lit ''wc'', lit ''notes.txt'']" "list_all benign (stdin ?w)"
    "0x0B \<notin> set (delivered (stdin ?w))" "\<forall>p c. fs ?w p = Some (Regular c) \<longrightarrow> 0x0B \<notin> set c"
    "wc_spec [lit ''wc'', lit ''notes.txt''] (fs ?w) (delivered (stdin ?w)) = Inr (lit ''1  3 18 notes.txt'')"
    "stdout_writes ?w = map Accepted [3] @ WriteFailed BrokenPipe # []"
    "list_all (\<lambda>n. 0 < n) [3::nat]" "sum_list [3::nat] \<le> length (lit ''1  3 18 notes.txt'')"
    "BrokenPipe \<noteq> Interrupted" "BrokenPipe \<noteq> BadFileDescriptor"
    by (simp_all add: notes_world_def wc_spec_def build_spec_def spec_flag_def spec_acquire_def
        read_to_string_spec_def from_utf8_def run_utf8_validation_def utf8_char_width_def
        spec_report_def line_count_def word_count_def spec_whitespace_def fmt_usize.simps)
  show ?thesis using main_print_failure[OF h] by (simp add: notes_world_def split: prod.splits)
qed

end
